theory Spec2Isabelle
  imports Complex_Main
begin

section \<open>The panel container of three-troika-ui and its box layout\<close>

text \<open>
  This theory embeds \<^verbatim>\<open>src/UIPanel.ts\<close> together with the parts of
  \<^verbatim>\<open>src/UIElement.ts\<close> and \<^verbatim>\<open>src/UIBox.ts\<close> that the panel reads or writes.

  Modelling decisions.
  \<^item> A JavaScript \<^verbatim>\<open>number\<close> is a \<^typ>\<open>real\<close>; \<^verbatim>\<open>NaN\<close> and the infinities are
    outside the model. The panel is embedded with exact arithmetic first. The layout pass
    is then embedded a second time with every operation rounded, and what is said about
    the values the arithmetic yields at sizes that are not dyadic is said of that second
    embedding; the first is its instance for the identity rounding (\<open>layout_fl_exact\<close>).
  \<^item> Objects have identity. A child is a reference into a store of elements, and the
    private array \<^verbatim>\<open>_children\<close> is a reference into a store of arrays, so that
    the same child held twice and two arrays with equal contents are told apart.
  \<^item> The children are objects other than the panel itself and other than its background.
  \<^item> The scene graph (\<^verbatim>\<open>super.add\<close>, \<^verbatim>\<open>super.remove\<close>), meshes, geometries and
    materials are the rendering engine's and are left out; a field that no panel operation
    reads or writes (\<^verbatim>\<open>_needsUpdate\<close>, \<^verbatim>\<open>_anchor\<close>, \<^verbatim>\<open>hovered\<close>, and the hover
    colour and hover flag of the box) is left out too.
  \<^item> The padding quadruple is a value: the source keeps the caller's array.
\<close>

subsection \<open>Data\<close>

datatype LayoutDirection = Horizontal | Vertical

datatype LayoutAlign = AlignStart | AlignCenter | AlignEnd

datatype LayoutJustify =
  JustifyStart | JustifyCenter | JustifyEnd | SpaceBetween | SpaceAround

text \<open>\<^verbatim>\<open>UIElement\<close>: the size, the position inherited from the scene node, and the
  \<^verbatim>\<open>interactive\<close> flag.\<close>

record UIElement =
  width :: real
  height :: real
  position_x :: real
  position_y :: real
  position_z :: real
  interactive :: bool

text \<open>\<^verbatim>\<open>UIBox extends UIElement\<close>.\<close>

record UIBox = UIElement +
  color :: real
  opacity :: real
  borderRadius :: real
  borderWidth :: real
  borderColor :: real

type_synonym ref = nat

text \<open>\<^verbatim>\<open>UIPanel extends UIElement\<close>. The field \<open>children\<close> is the reference held in
  \<^verbatim>\<open>_children\<close>; \<open>padding\<close> is (top, right, bottom, left).\<close>

record UIPanel = UIElement +
  background :: "UIBox option"
  children :: ref
  padding :: "real \<times> real \<times> real \<times> real"
  gap :: real
  direction :: LayoutDirection
  align :: LayoutAlign
  justify :: LayoutJustify
  autoSize :: bool

text \<open>The argument of \<^verbatim>\<open>padding\<close>: one number or four.\<close>

datatype PaddingArg = Uniform real | Sides real real real real

text \<open>\<^verbatim>\<open>UIPanelConfig\<close>: every field is optional.\<close>

record UIPanelConfig =
  cfg_width :: "real option"
  cfg_height :: "real option"
  cfg_padding :: "PaddingArg option"
  cfg_gap :: "real option"
  cfg_direction :: "LayoutDirection option"
  cfg_align :: "LayoutAlign option"
  cfg_justify :: "LayoutJustify option"
  cfg_backgroundColor :: "real option"
  cfg_backgroundOpacity :: "real option"
  cfg_borderRadius :: "real option"
  cfg_borderWidth :: "real option"
  cfg_borderColor :: "real option"
  cfg_autoSize :: "bool option"

text \<open>The part of the program state a panel can reach: the panel, the store of the child
  elements, the store of arrays of child references, and the next unused array
  reference.\<close>

record world =
  panel :: UIPanel
  elements :: "ref \<Rightarrow> UIElement"
  arrays :: "ref \<Rightarrow> ref list"
  next_array :: ref

subsection \<open>UIBox\<close>

text \<open>The nullish coalescing operator \<^verbatim>\<open>??\<close>.\<close>

definition nullish :: "'a option \<Rightarrow> 'a \<Rightarrow> 'a" where
  "nullish v d = (case v of None \<Rightarrow> d | Some x \<Rightarrow> x)"

text \<open>\<^verbatim>\<open>v !== undefined\<close>, and the truth value JavaScript gives an optional number in a
  condition: it is there and it is not 0.\<close>

definition defined :: "'a option \<Rightarrow> bool" where
  "defined v = (case v of None \<Rightarrow> False | Some x \<Rightarrow> True)"

definition truthy :: "real option \<Rightarrow> bool" where
  "truthy v = (case v of None \<Rightarrow> False | Some x \<Rightarrow> x \<noteq> 0)"

text \<open>\<^verbatim>\<open>new UIBox({width, height, color, opacity, borderRadius, borderWidth, borderColor})\<close>,
  as the panel's constructor calls it.\<close>

definition new_UIBox :: "real \<Rightarrow> real \<Rightarrow> real \<Rightarrow> real \<Rightarrow> real \<Rightarrow> real \<Rightarrow> real \<Rightarrow> UIBox" where
  "new_UIBox w h c opa radius bw bc =
     \<lparr>width = w, height = h, position_x = 0, position_y = 0, position_z = 0,
      interactive = True,
      color = c, opacity = opa, borderRadius = radius, borderWidth = bw, borderColor = bc\<rparr>"

definition UIBox_setSize :: "real \<Rightarrow> real \<Rightarrow> UIBox \<Rightarrow> UIBox" where
  "UIBox_setSize w h b = b\<lparr>width := w, height := h\<rparr>"

definition UIBox_setColor :: "real \<Rightarrow> UIBox \<Rightarrow> UIBox" where
  "UIBox_setColor c b = b\<lparr>color := c\<rparr>"

definition UIBox_setBorder :: "real \<Rightarrow> real \<Rightarrow> UIBox \<Rightarrow> UIBox" where
  "UIBox_setBorder w c b = b\<lparr>borderWidth := w, borderColor := c\<rparr>"

subsection \<open>The layout pass\<close>

definition paddingTop :: "UIPanel \<Rightarrow> real" where
  "paddingTop p = (case padding p of (t, r, b, l) \<Rightarrow> t)"

definition paddingRight :: "UIPanel \<Rightarrow> real" where
  "paddingRight p = (case padding p of (t, r, b, l) \<Rightarrow> r)"

definition paddingBottom :: "UIPanel \<Rightarrow> real" where
  "paddingBottom p = (case padding p of (t, r, b, l) \<Rightarrow> b)"

definition paddingLeft :: "UIPanel \<Rightarrow> real" where
  "paddingLeft p = (case padding p of (t, r, b, l) \<Rightarrow> l)"

definition childMainSize :: "LayoutDirection \<Rightarrow> UIElement \<Rightarrow> real" where
  "childMainSize d child = (if d = Horizontal then width child else height child)"

definition childCrossSize :: "LayoutDirection \<Rightarrow> UIElement \<Rightarrow> real" where
  "childCrossSize d child = (if d = Horizontal then height child else width child)"

text \<open>The first loop (lines 132 to 140): the accumulator is
  (\<^verbatim>\<open>totalMainSize\<close>, \<^verbatim>\<open>maxCrossSize\<close>), and both start at 0.\<close>

fun measure_children ::
  "LayoutDirection \<Rightarrow> (ref \<Rightarrow> UIElement) \<Rightarrow> ref list \<Rightarrow> real \<times> real \<Rightarrow> real \<times> real" where
  "measure_children d es [] acc = acc"
| "measure_children d es (c # cs) (totalMainSize, maxCrossSize) =
     (if d = Horizontal
      then measure_children d es cs
             (totalMainSize + width (es c), max maxCrossSize (height (es c)))
      else measure_children d es cs
             (totalMainSize + height (es c), max maxCrossSize (width (es c))))"

text \<open>The \<^verbatim>\<open>autoSize\<close> block (lines 144 to 155), entered when \<^verbatim>\<open>_autoSize\<close> holds.\<close>

definition autoSize_block :: "real \<Rightarrow> real \<Rightarrow> UIPanel \<Rightarrow> UIPanel" where
  "autoSize_block totalMainSize maxCrossSize p =
     (let p1 = (if direction p = Horizontal
                then p\<lparr>width := totalMainSize + paddingLeft p + paddingRight p,
                       height := maxCrossSize + paddingTop p + paddingBottom p\<rparr>
                else p\<lparr>width := maxCrossSize + paddingLeft p + paddingRight p,
                       height := totalMainSize + paddingTop p + paddingBottom p\<rparr>)
      in case background p1 of
           None \<Rightarrow> p1
         | Some b \<Rightarrow> p1\<lparr>background := Some (UIBox_setSize (width p1) (height p1) b)\<rparr>)"

text \<open>The \<^verbatim>\<open>switch (this._justify)\<close> of lines 164 to 184: the pair
  (\<^verbatim>\<open>mainPos\<close>, \<^verbatim>\<open>spacing\<close>). \<open>g\<close> is \<^verbatim>\<open>this._gap\<close> and \<open>n\<close> is \<^verbatim>\<open>this._children.length\<close>.\<close>

definition justify_switch ::
  "LayoutJustify \<Rightarrow> real \<Rightarrow> real \<Rightarrow> real \<Rightarrow> real \<Rightarrow> nat \<Rightarrow> real \<times> real" where
  "justify_switch j mainStart mainSize totalMainSize g n =
     (case j of
        JustifyStart \<Rightarrow> (mainStart, g)
      | JustifyCenter \<Rightarrow> (mainStart + (mainSize - totalMainSize) / 2, g)
      | JustifyEnd \<Rightarrow> (mainStart + mainSize - totalMainSize, g)
      | SpaceBetween \<Rightarrow>
          (mainStart,
           if n > 1
           then (mainSize - (totalMainSize - g * (real n - 1))) / (real n - 1)
           else g)
      | SpaceAround \<Rightarrow>
          (let spacing = (mainSize - (totalMainSize - g * (real n - 1))) / (real n + 1)
           in (mainStart + spacing, spacing)))"

text \<open>The values of the local variables when the placement loop is entered (line 186),
  and the panel as the \<^verbatim>\<open>autoSize\<close> block leaves it.\<close>

record layout_vars =
  contentWidth :: real
  contentHeight :: real
  totalMainSize :: real
  maxCrossSize :: real
  sized :: UIPanel
  mainSize :: real
  mainStart :: real
  mainPos :: real
  spacing :: real

text \<open>Lines 124 to 184, for a non-empty child list \<open>cs\<close>.\<close>

definition layout_locals :: "UIPanel \<Rightarrow> (ref \<Rightarrow> UIElement) \<Rightarrow> ref list \<Rightarrow> layout_vars" where
  "layout_locals p es cs =
     (let cw = width p - paddingLeft p - paddingRight p;
          ch = height p - paddingTop p - paddingBottom p;
          measured = measure_children (direction p) es cs (0, 0);
          total = fst measured + gap p * (real (length cs) - 1);
          mx = snd measured;
          p' = (if autoSize p then autoSize_block total mx p else p);
          msize = (if direction p' = Horizontal then cw else ch);
          mstart = (if direction p' = Horizontal
                    then - width p' / 2 + paddingLeft p
                    else height p' / 2 - paddingTop p);
          switched = justify_switch (justify p') mstart msize total (gap p') (length cs)
      in \<lparr>contentWidth = cw, contentHeight = ch, totalMainSize = total, maxCrossSize = mx,
          sized = p', mainSize = msize, mainStart = mstart,
          mainPos = fst switched, spacing = snd switched\<rparr>)"

text \<open>The \<^verbatim>\<open>switch (this._align)\<close> of lines 194 to 216, for one child.\<close>

definition crossPos :: "UIPanel \<Rightarrow> UIElement \<Rightarrow> real" where
  "crossPos p child =
     (case align p of
        AlignStart \<Rightarrow>
          (if direction p = Horizontal
           then - height p / 2 + paddingBottom p + childCrossSize (direction p) child / 2
           else - width p / 2 + paddingLeft p + childCrossSize (direction p) child / 2)
      | AlignCenter \<Rightarrow> 0
      | AlignEnd \<Rightarrow>
          (if direction p = Horizontal
           then height p / 2 - paddingTop p - childCrossSize (direction p) child / 2
           else width p / 2 - paddingRight p - childCrossSize (direction p) child / 2))"

text \<open>The body of the placement loop (lines 188 to 230) for one child, with
  \<^verbatim>\<open>mainPos\<close> at \<open>mp\<close>: the child with its position written
  (\<open>place_child\<close>), and \<^verbatim>\<open>mainPos\<close> after the step (\<open>advance\<close>).\<close>

definition place_child :: "UIPanel \<Rightarrow> real \<Rightarrow> UIElement \<Rightarrow> UIElement" where
  "place_child p mp child =
     (let cms = childMainSize (direction p) child;
          cp = crossPos p child
      in if direction p = Horizontal
         then child\<lparr>position_x := mp + cms / 2, position_y := cp, position_z := 0.01\<rparr>
         else child\<lparr>position_x := cp, position_y := mp - cms / 2, position_z := 0.01\<rparr>)"

definition advance :: "UIPanel \<Rightarrow> real \<Rightarrow> real \<Rightarrow> UIElement \<Rightarrow> real" where
  "advance p sp mp child =
     (let cms = childMainSize (direction p) child
      in if direction p = Horizontal then mp + (cms + sp) else mp - (cms + sp))"

text \<open>The placement loop (lines 187 to 231). Each child is read from the store as the
  loop reaches it and written back with its new position.\<close>

fun place_children ::
  "UIPanel \<Rightarrow> real \<Rightarrow> ref list \<Rightarrow> real \<Rightarrow> (ref \<Rightarrow> UIElement) \<Rightarrow> (ref \<Rightarrow> UIElement)" where
  "place_children p sp [] mp es = es"
| "place_children p sp (c # cs) mp es =
     place_children p sp cs (advance p sp mp (es c)) (es(c := place_child p mp (es c)))"

text \<open>The contents of \<^verbatim>\<open>this._children\<close>.\<close>

definition children_of :: "world \<Rightarrow> ref list" where
  "children_of w = arrays w (children (panel w))"

text \<open>\<^verbatim>\<open>layout()\<close>.\<close>

definition layout :: "world \<Rightarrow> world" where
  "layout w =
     (if length (children_of w) = 0 then w
      else let v = layout_locals (panel w) (elements w) (children_of w)
           in w\<lparr>panel := sized v,
                 elements := place_children (sized v) (spacing v) (children_of w)
                               (mainPos v) (elements w)\<rparr>)"

subsection \<open>The other operations of the panel\<close>

text \<open>The constructor, in a state whose element store is \<open>es\<close>, whose array store is
  \<open>arrs\<close> and whose next unused array reference is \<open>n\<close>. The field initialiser
  \<^verbatim>\<open>_children = []\<close> allocates the array.\<close>

definition new_UIPanel ::
  "UIPanelConfig \<Rightarrow> (ref \<Rightarrow> UIElement) \<Rightarrow> (ref \<Rightarrow> ref list) \<Rightarrow> ref \<Rightarrow> world" where
  "new_UIPanel config es arrs n =
     (let w0 = nullish (cfg_width config) 1;
          h0 = nullish (cfg_height config) 1
      in \<lparr>panel =
            \<lparr>width = w0, height = h0,
             position_x = 0, position_y = 0, position_z = 0,
             interactive = True,
             background =
               (if defined (cfg_backgroundColor config) \<or> truthy (cfg_borderWidth config)
                then Some (new_UIBox w0 h0
                             (nullish (cfg_backgroundColor config) 0)
                             (nullish (cfg_backgroundOpacity config) 1)
                             (nullish (cfg_borderRadius config) 0)
                             (nullish (cfg_borderWidth config) 0)
                             (nullish (cfg_borderColor config) 16777215))
                else None),
             children = n,
             padding =
               (case cfg_padding config of
                  None \<Rightarrow> (0, 0, 0, 0)
                | Some (Uniform x) \<Rightarrow> (x, x, x, x)
                | Some (Sides t r b l) \<Rightarrow> (t, r, b, l)),
             gap = nullish (cfg_gap config) 0,
             direction = nullish (cfg_direction config) Vertical,
             align = nullish (cfg_align config) AlignCenter,
             justify = nullish (cfg_justify config) JustifyStart,
             autoSize = nullish (cfg_autoSize config) False\<rparr>,
          elements = es,
          arrays = arrs(n := []),
          next_array = Suc n\<rparr>)"

text \<open>\<^verbatim>\<open>push\<close> and \<^verbatim>\<open>splice\<close> change the array in place.
  \<open>push_child\<close> is \<^verbatim>\<open>this._children.push(element)\<close>, the state in which
  \<^verbatim>\<open>addChild\<close> calls \<^verbatim>\<open>layout\<close>.\<close>

definition push_child :: "ref \<Rightarrow> world \<Rightarrow> world" where
  "push_child element w =
     w\<lparr>arrays := (arrays w)(children (panel w) := children_of w @ [element])\<rparr>"

definition addChild :: "ref \<Rightarrow> world \<Rightarrow> world" where
  "addChild element w = layout (push_child element w)"

definition removeChild :: "ref \<Rightarrow> world \<Rightarrow> world" where
  "removeChild element w =
     (if element \<in> set (children_of w)
      then layout (w\<lparr>arrays := (arrays w)(children (panel w) := remove1 element (children_of w))\<rparr>)
      else w)"

text \<open>\<^verbatim>\<open>this._children = []\<close> is a new array.\<close>

definition clearChildren :: "world \<Rightarrow> world" where
  "clearChildren w =
     layout (w\<lparr>panel := (panel w)\<lparr>children := next_array w\<rparr>,
               arrays := (arrays w)(next_array w := []),
               next_array := Suc (next_array w)\<rparr>)"

text \<open>\<^verbatim>\<open>getChildren()\<close> returns the reference of a new array holding a copy.\<close>

definition getChildren :: "world \<Rightarrow> ref \<times> world" where
  "getChildren w =
     (next_array w,
      w\<lparr>arrays := (arrays w)(next_array w := children_of w),
        next_array := Suc (next_array w)\<rparr>)"

definition setDirection :: "LayoutDirection \<Rightarrow> world \<Rightarrow> world" where
  "setDirection d w = layout (w\<lparr>panel := (panel w)\<lparr>direction := d\<rparr>\<rparr>)"

definition setAlign :: "LayoutAlign \<Rightarrow> world \<Rightarrow> world" where
  "setAlign a w = layout (w\<lparr>panel := (panel w)\<lparr>align := a\<rparr>\<rparr>)"

definition setJustify :: "LayoutJustify \<Rightarrow> world \<Rightarrow> world" where
  "setJustify j w = layout (w\<lparr>panel := (panel w)\<lparr>justify := j\<rparr>\<rparr>)"

definition setGap :: "real \<Rightarrow> world \<Rightarrow> world" where
  "setGap g w = layout (w\<lparr>panel := (panel w)\<lparr>gap := g\<rparr>\<rparr>)"

definition setPadding :: "PaddingArg \<Rightarrow> world \<Rightarrow> world" where
  "setPadding a w =
     layout (w\<lparr>panel := (panel w)\<lparr>padding :=
                 (case a of Uniform x \<Rightarrow> (x, x, x, x) | Sides t r b l \<Rightarrow> (t, r, b, l))\<rparr>\<rparr>)"

definition setBackgroundColor :: "real \<Rightarrow> world \<Rightarrow> world" where
  "setBackgroundColor c w =
     (case background (panel w) of
        None \<Rightarrow> w
      | Some b \<Rightarrow> w\<lparr>panel := (panel w)\<lparr>background := Some (UIBox_setColor c b)\<rparr>\<rparr>)"

definition setBorder :: "real \<Rightarrow> real \<Rightarrow> world \<Rightarrow> world" where
  "setBorder bw c w =
     (case background (panel w) of
        None \<Rightarrow> w
      | Some b \<Rightarrow> w\<lparr>panel := (panel w)\<lparr>background := Some (UIBox_setBorder bw c b)\<rparr>\<rparr>)"

definition setSize :: "real \<Rightarrow> real \<Rightarrow> world \<Rightarrow> world" where
  "setSize wd ht w =
     (let p1 = (panel w)\<lparr>width := wd, height := ht\<rparr>;
          p2 = (case background p1 of
                  None \<Rightarrow> p1
                | Some b \<Rightarrow> p1\<lparr>background := Some (UIBox_setSize wd ht b)\<rparr>)
      in layout (w\<lparr>panel := p2\<rparr>))"

text \<open>\<^verbatim>\<open>UIElement.setSize\<close> called by the owner of a child, between two operations of
  the panel.\<close>

definition child_setSize :: "ref \<Rightarrow> real \<Rightarrow> real \<Rightarrow> world \<Rightarrow> world" where
  "child_setSize c wd ht w =
     w\<lparr>elements := (elements w)(c := (elements w c)\<lparr>width := wd, height := ht\<rparr>)\<rparr>"

subsection \<open>Sequences of operations\<close>

datatype panel_op =
    AddChild ref
  | RemoveChild ref
  | ClearChildren
  | GetChildren
  | Layout
  | SetDirection LayoutDirection
  | SetAlign LayoutAlign
  | SetJustify LayoutJustify
  | SetGap real
  | SetPadding PaddingArg
  | SetBackgroundColor real
  | SetBorder real real
  | SetSize real real
  | ChildSetSize ref real real

fun step :: "panel_op \<Rightarrow> world \<Rightarrow> world" where
  "step (AddChild c) w = addChild c w"
| "step (RemoveChild c) w = removeChild c w"
| "step ClearChildren w = clearChildren w"
| "step GetChildren w = snd (getChildren w)"
| "step Layout w = layout w"
| "step (SetDirection d) w = setDirection d w"
| "step (SetAlign a) w = setAlign a w"
| "step (SetJustify j) w = setJustify j w"
| "step (SetGap g) w = setGap g w"
| "step (SetPadding a) w = setPadding a w"
| "step (SetBackgroundColor c) w = setBackgroundColor c w"
| "step (SetBorder bw c) w = setBorder bw c w"
| "step (SetSize wd ht) w = setSize wd ht w"
| "step (ChildSetSize c wd ht) w = child_setSize c wd ht w"

fun run :: "panel_op list \<Rightarrow> world \<Rightarrow> world" where
  "run [] w = w"
| "run (x # xs) w = run xs (step x w)"

subsection \<open>Observations and example data\<close>

text \<open>The background visual, when there is one, has the panel's size.\<close>

definition background_in_sync :: "UIPanel \<Rightarrow> bool" where
  "background_in_sync p =
     (case background p of None \<Rightarrow> True
      | Some b \<Rightarrow> width b = width p \<and> height b = height p)"

text \<open>The array of the panel was allocated before the next unused reference.\<close>

definition children_allocated :: "world \<Rightarrow> bool" where
  "children_allocated w = (children (panel w) < next_array w)"

text \<open>Two elements with the same fields apart from the position.\<close>

definition same_box :: "UIElement \<Rightarrow> UIElement \<Rightarrow> bool" where
  "same_box a b = (width a = width b \<and> height a = height b \<and> interactive a = interactive b)"

text \<open>\<^verbatim>\<open>{}\<close>, the configuration with every field left out.\<close>

definition empty_config :: UIPanelConfig where
  "empty_config =
     \<lparr>cfg_width = None, cfg_height = None, cfg_padding = None, cfg_gap = None,
      cfg_direction = None, cfg_align = None, cfg_justify = None,
      cfg_backgroundColor = None, cfg_backgroundOpacity = None, cfg_borderRadius = None,
      cfg_borderWidth = None, cfg_borderColor = None, cfg_autoSize = None\<rparr>"

text \<open>A child of a given size, at the origin.\<close>

definition sized_element :: "real \<Rightarrow> real \<Rightarrow> UIElement" where
  "sized_element wd ht =
     \<lparr>width = wd, height = ht, position_x = 0, position_y = 0, position_z = 0,
      interactive = False\<rparr>"

text \<open>A panel built from a configuration in a state where every element has size
  (1, 1) and no array is allocated.\<close>

definition fresh_panel :: "UIPanelConfig \<Rightarrow> world" where
  "fresh_panel config = new_UIPanel config (\<lambda>_. sized_element 1 1) (\<lambda>_. []) 0"

text \<open>A horizontal panel of size (4, 2), aligned at the start, holding one child of size
  (1, 1), as \<^verbatim>\<open>addChild\<close> hands it to \<^verbatim>\<open>layout\<close>.\<close>

definition single_child_world :: world where
  "single_child_world =
     push_child 0 (fresh_panel (empty_config\<lparr>cfg_width := Some 4, cfg_height := Some 2,
       cfg_direction := Some Horizontal, cfg_align := Some AlignStart\<rparr>))"

text \<open>A panel with a background and \<^verbatim>\<open>autoSize\<close>, without children.\<close>

definition empty_autosize_world :: world where
  "empty_autosize_world =
     fresh_panel (empty_config\<lparr>cfg_autoSize := Some True, cfg_backgroundColor := Some 0\<rparr>)"

text \<open>A vertical panel with the default alignment and two children of widths 1 and 2.\<close>

definition centered_world :: world where
  "centered_world =
     child_setSize 1 2 3 (push_child 1 (push_child 0 (fresh_panel
       (empty_config\<lparr>cfg_width := Some 4, cfg_height := Some 6, cfg_padding := Some (Uniform 0.5)\<rparr>))))"

text \<open>The coordinate of a child on the cross axis: Y for a horizontal panel, X for a
  vertical one.\<close>

definition cross_coordinate :: "LayoutDirection \<Rightarrow> UIElement \<Rightarrow> real" where
  "cross_coordinate d e = (if d = Horizontal then position_y e else position_x e)"

text \<open>A holder of the array at reference \<open>a\<close> changes it in place (\<^verbatim>\<open>push\<close>,
  \<^verbatim>\<open>splice\<close>, \<^verbatim>\<open>reverse\<close>, an assignment to an index): its contents become \<open>ys\<close>.\<close>

definition array_write :: "ref \<Rightarrow> ref list \<Rightarrow> world \<Rightarrow> world" where
  "array_write a ys w = w\<lparr>arrays := (arrays w)(a := ys)\<rparr>"


text \<open>The array at reference \<open>a\<close> is allocated and is not the array of the panel.\<close>

definition detached :: "ref \<Rightarrow> world \<Rightarrow> bool" where
  "detached a w = (a < next_array w \<and> a \<noteq> children (panel w) \<and> children_allocated w)"

text \<open>A panel holding the children 0 and 1.\<close>

definition getChildren_world :: world where
  "getChildren_world =
     push_child 1 (push_child 0 (fresh_panel (empty_config\<lparr>cfg_autoSize := Some True\<rparr>)))"

text \<open>A panel with a background and \<^verbatim>\<open>autoSize\<close> after \<^verbatim>\<open>addChild\<close> of a child of size
  (1, 1) and \<^verbatim>\<open>setPadding(1)\<close>.\<close>

definition padded_autosize_world :: world where
  "padded_autosize_world =
     run [AddChild 0, SetPadding (Uniform 1)]
       (fresh_panel (empty_config\<lparr>cfg_autoSize := Some True, cfg_backgroundColor := Some 0\<rparr>))"

text \<open>A horizontal panel of width 10 without padding, with \<^verbatim>\<open>justify = space-between\<close>
  and a configured gap of 0.25, holding three children of size (1, 1).\<close>

definition space_between_world :: world where
  "space_between_world =
     push_child 2 (push_child 1 (push_child 0 (fresh_panel
       (empty_config\<lparr>cfg_width := Some 10, cfg_height := Some 2, cfg_gap := Some 0.25,
          cfg_direction := Some Horizontal, cfg_justify := Some SpaceBetween\<rparr>))))"

text \<open>A horizontal and a vertical panel of size (6, 4) with the default parameters,
  holding two children; the first has main size 2.\<close>

definition padded_row_world :: world where
  "padded_row_world =
     child_setSize 0 2 1 (push_child 1 (push_child 0 (fresh_panel
       (empty_config\<lparr>cfg_width := Some 6, cfg_height := Some 4,
          cfg_direction := Some Horizontal\<rparr>))))"

definition padded_column_world :: world where
  "padded_column_world =
     child_setSize 0 1 2 (push_child 1 (push_child 0 (fresh_panel
       (empty_config\<lparr>cfg_width := Some 6, cfg_height := Some 4\<rparr>))))"

text \<open>A horizontal panel of size (10, 2) with \<^verbatim>\<open>autoSize\<close>, \<^verbatim>\<open>justify = center\<close> and a
  background, and a child of size (2, 1): the state in which \<^verbatim>\<open>addChild\<close> calls
  \<^verbatim>\<open>layout\<close>, and the state \<^verbatim>\<open>addChild\<close> returns.\<close>

definition autosize_center_entry :: world where
  "autosize_center_entry =
     push_child 0 (child_setSize 0 2 1 (fresh_panel
       (empty_config\<lparr>cfg_width := Some 10, cfg_height := Some 2,
          cfg_direction := Some Horizontal, cfg_justify := Some JustifyCenter,
          cfg_autoSize := Some True, cfg_backgroundColor := Some 0\<rparr>)))"

definition autosize_center_world :: world where
  "autosize_center_world =
     addChild 0 (child_setSize 0 2 1 (fresh_panel
       (empty_config\<lparr>cfg_width := Some 10, cfg_height := Some 2,
          cfg_direction := Some Horizontal, cfg_justify := Some JustifyCenter,
          cfg_autoSize := Some True, cfg_backgroundColor := Some 0\<rparr>)))"

subsection \<open>Binary64 arithmetic\<close>

text \<open>A JavaScript \<^verbatim>\<open>number\<close> is an IEEE 754 binary64 value, and \<^verbatim>\<open>+\<close>, \<^verbatim>\<open>-\<close>,
  \<^verbatim>\<open>*\<close> and \<^verbatim>\<open>/\<close> return the exact result rounded to the nearest value with a
  significand of 53 bits, a tie going to the even significand. \<open>to_double\<close> is that
  rounding. The exponent is not bounded here: overflow, the subnormal numbers and
  \<^verbatim>\<open>NaN\<close> are outside the model. \<open>binade x\<close> is the exponent \<open>e\<close> with
  \<open>2^e \<le> |x| < 2^(e+1)\<close>.\<close>

definition round_half_even :: "real \<Rightarrow> int" where
  "round_half_even r =
     (let f = \<lfloor>r\<rfloor>; d = r - of_int f
      in if d < 1 / 2 then f
         else if 1 / 2 < d then f + 1
         else if even f then f else f + 1)"

definition binade :: "real \<Rightarrow> int" where
  "binade x = \<lfloor>log 2 \<bar>x\<bar>\<rfloor>"

definition to_double :: "real \<Rightarrow> real" where
  "to_double x =
     (if x = 0 then 0
      else let u = 2 powi (binade x - 52)
           in of_int (round_half_even (x / u)) * u)"

subsection \<open>The layout pass in rounded arithmetic\<close>

text \<open>The layout pass once more, with the result of every \<^verbatim>\<open>+\<close>, \<^verbatim>\<open>-\<close>, \<^verbatim>\<open>*\<close> and
  \<^verbatim>\<open>/\<close> of the source passed through a rounding function \<open>rnd\<close>, in the order in which
  the source evaluates them. Unary minus, \<^verbatim>\<open>Math.max\<close>, the comparisons and the
  arithmetic on the number of children are exact in binary64 and are not rounded. With
  \<open>rnd = to_double\<close> this is the arithmetic of the program; with the identity it is
  the exact arithmetic of the definitions above.\<close>

fun measure_children_fl ::
  "(real \<Rightarrow> real) \<Rightarrow> LayoutDirection \<Rightarrow> (ref \<Rightarrow> UIElement) \<Rightarrow> ref list \<Rightarrow> real \<times> real
     \<Rightarrow> real \<times> real" where
  "measure_children_fl rnd d es [] acc = acc"
| "measure_children_fl rnd d es (c # cs) (tot, mx) =
     (if d = Horizontal
      then measure_children_fl rnd d es cs
             (rnd (tot + width (es c)), max mx (height (es c)))
      else measure_children_fl rnd d es cs
             (rnd (tot + height (es c)), max mx (width (es c))))"

definition autoSize_block_fl :: "(real \<Rightarrow> real) \<Rightarrow> real \<Rightarrow> real \<Rightarrow> UIPanel \<Rightarrow> UIPanel" where
  "autoSize_block_fl rnd tot mx p =
     (let p1 = (if direction p = Horizontal
                then p\<lparr>width := rnd (rnd (tot + paddingLeft p) + paddingRight p),
                       height := rnd (rnd (mx + paddingTop p) + paddingBottom p)\<rparr>
                else p\<lparr>width := rnd (rnd (mx + paddingLeft p) + paddingRight p),
                       height := rnd (rnd (tot + paddingTop p) + paddingBottom p)\<rparr>)
      in case background p1 of
           None \<Rightarrow> p1
         | Some b \<Rightarrow> p1\<lparr>background := Some (UIBox_setSize (width p1) (height p1) b)\<rparr>)"

definition justify_switch_fl ::
  "(real \<Rightarrow> real) \<Rightarrow> LayoutJustify \<Rightarrow> real \<Rightarrow> real \<Rightarrow> real \<Rightarrow> real \<Rightarrow> nat \<Rightarrow> real \<times> real" where
  "justify_switch_fl rnd j mstart msize tot g n =
     (case j of
        JustifyStart \<Rightarrow> (mstart, g)
      | JustifyCenter \<Rightarrow> (rnd (mstart + rnd (rnd (msize - tot) / 2)), g)
      | JustifyEnd \<Rightarrow> (rnd (rnd (mstart + msize) - tot), g)
      | SpaceBetween \<Rightarrow>
          (mstart,
           if n > 1
           then rnd (rnd (msize - rnd (tot - rnd (g * (real n - 1)))) / (real n - 1))
           else g)
      | SpaceAround \<Rightarrow>
          (let sp = rnd (rnd (msize - rnd (tot - rnd (g * (real n - 1)))) / (real n + 1))
           in (rnd (mstart + sp), sp)))"

definition layout_locals_fl ::
  "(real \<Rightarrow> real) \<Rightarrow> UIPanel \<Rightarrow> (ref \<Rightarrow> UIElement) \<Rightarrow> ref list \<Rightarrow> layout_vars" where
  "layout_locals_fl rnd p es cs =
     (let cw = rnd (rnd (width p - paddingLeft p) - paddingRight p);
          ch = rnd (rnd (height p - paddingTop p) - paddingBottom p);
          measured = measure_children_fl rnd (direction p) es cs (0, 0);
          tot = rnd (fst measured + rnd (gap p * (real (length cs) - 1)));
          mx = snd measured;
          p' = (if autoSize p then autoSize_block_fl rnd tot mx p else p);
          msize = (if direction p' = Horizontal then cw else ch);
          mstart = (if direction p' = Horizontal
                    then rnd (rnd (- width p' / 2) + paddingLeft p)
                    else rnd (rnd (height p' / 2) - paddingTop p));
          switched = justify_switch_fl rnd (justify p') mstart msize tot (gap p') (length cs)
      in \<lparr>contentWidth = cw, contentHeight = ch, totalMainSize = tot, maxCrossSize = mx,
          sized = p', mainSize = msize, mainStart = mstart,
          mainPos = fst switched, spacing = snd switched\<rparr>)"

definition crossPos_fl :: "(real \<Rightarrow> real) \<Rightarrow> UIPanel \<Rightarrow> UIElement \<Rightarrow> real" where
  "crossPos_fl rnd p child =
     (case align p of
        AlignStart \<Rightarrow>
          (if direction p = Horizontal
           then rnd (rnd (rnd (- height p / 2) + paddingBottom p)
                     + rnd (childCrossSize (direction p) child / 2))
           else rnd (rnd (rnd (- width p / 2) + paddingLeft p)
                     + rnd (childCrossSize (direction p) child / 2)))
      | AlignCenter \<Rightarrow> 0
      | AlignEnd \<Rightarrow>
          (if direction p = Horizontal
           then rnd (rnd (rnd (height p / 2) - paddingTop p)
                     - rnd (childCrossSize (direction p) child / 2))
           else rnd (rnd (rnd (width p / 2) - paddingRight p)
                     - rnd (childCrossSize (direction p) child / 2))))"

definition place_child_fl :: "(real \<Rightarrow> real) \<Rightarrow> UIPanel \<Rightarrow> real \<Rightarrow> UIElement \<Rightarrow> UIElement" where
  "place_child_fl rnd p mp child =
     (let cms = childMainSize (direction p) child;
          cp = crossPos_fl rnd p child
      in if direction p = Horizontal
         then child\<lparr>position_x := rnd (mp + rnd (cms / 2)), position_y := cp,
                    position_z := rnd 0.01\<rparr>
         else child\<lparr>position_x := cp, position_y := rnd (mp - rnd (cms / 2)),
                    position_z := rnd 0.01\<rparr>)"

definition advance_fl :: "(real \<Rightarrow> real) \<Rightarrow> UIPanel \<Rightarrow> real \<Rightarrow> real \<Rightarrow> UIElement \<Rightarrow> real" where
  "advance_fl rnd p sp mp child =
     (let cms = childMainSize (direction p) child
      in if direction p = Horizontal
         then rnd (mp + rnd (cms + sp))
         else rnd (mp - rnd (cms + sp)))"

fun place_children_fl ::
  "(real \<Rightarrow> real) \<Rightarrow> UIPanel \<Rightarrow> real \<Rightarrow> ref list \<Rightarrow> real \<Rightarrow> (ref \<Rightarrow> UIElement)
     \<Rightarrow> (ref \<Rightarrow> UIElement)" where
  "place_children_fl rnd p sp [] mp es = es"
| "place_children_fl rnd p sp (c # cs) mp es =
     place_children_fl rnd p sp cs (advance_fl rnd p sp mp (es c))
       (es(c := place_child_fl rnd p mp (es c)))"

definition layout_fl :: "(real \<Rightarrow> real) \<Rightarrow> world \<Rightarrow> world" where
  "layout_fl rnd w =
     (if length (children_of w) = 0 then w
      else let v = layout_locals_fl rnd (panel w) (elements w) (children_of w)
           in w\<lparr>panel := sized v,
                 elements := place_children_fl rnd (sized v) (spacing v) (children_of w)
                               (mainPos v) (elements w)\<rparr>)"

definition setPadding_fl :: "(real \<Rightarrow> real) \<Rightarrow> PaddingArg \<Rightarrow> world \<Rightarrow> world" where
  "setPadding_fl rnd a w =
     layout_fl rnd (w\<lparr>panel := (panel w)\<lparr>padding :=
                 (case a of Uniform x \<Rightarrow> (x, x, x, x) | Sides t r b l \<Rightarrow> (t, r, b, l))\<rparr>\<rparr>)"

text \<open>The sum of a list as the measuring loop accumulates it: from 0, left to right, each
  addition rounded.\<close>

definition sum_fl :: "(real \<Rightarrow> real) \<Rightarrow> real list \<Rightarrow> real" where
  "sum_fl rnd xs = foldl (\<lambda>s x. rnd (s + x)) 0 xs"

text \<open>\<^verbatim>\<open>mainPos\<close> after the placement loop has gone through the children \<open>cs\<close>,
  starting at \<open>mp\<close>.\<close>

fun mainPos_after ::
  "(real \<Rightarrow> real) \<Rightarrow> UIPanel \<Rightarrow> real \<Rightarrow> real \<Rightarrow> (ref \<Rightarrow> UIElement) \<Rightarrow> ref list \<Rightarrow> real" where
  "mainPos_after rnd p sp mp es [] = mp"
| "mainPos_after rnd p sp mp es (c # cs) =
     mainPos_after rnd p sp (advance_fl rnd p sp mp (es c)) es cs"

text \<open>A horizontal panel of size (2, 1) without padding, with
  \<^verbatim>\<open>justify = space-between\<close> and the gap \<open>g\<close>, holding three children of size
  (1, 1); and the binary64 value nearest to 0.7.\<close>

definition gap_world :: "real \<Rightarrow> world" where
  "gap_world g =
     push_child 2 (push_child 1 (push_child 0 (fresh_panel
       (empty_config\<lparr>cfg_width := Some 2, cfg_height := Some 1, cfg_gap := Some g,
          cfg_direction := Some Horizontal, cfg_justify := Some SpaceBetween\<rparr>))))"

definition gap_07 :: real where
  "gap_07 = 3152519739159347 / 4503599627370496"

text \<open>A horizontal panel with \<^verbatim>\<open>autoSize\<close> and the default parameters, holding one child
  of size (1, 1).\<close>

definition autosize_row_world :: world where
  "autosize_row_world =
     push_child 0 (fresh_panel
       (empty_config\<lparr>cfg_direction := Some Horizontal, cfg_autoSize := Some True\<rparr>))"

section \<open>Properties\<close>

subsection \<open>The placement loop\<close>

lemmas panel_defs =
  fresh_panel_def new_UIPanel_def empty_config_def nullish_def defined_def truthy_def
  new_UIBox_def sized_element_def
  push_child_def child_setSize_def children_of_def

lemmas layout_defs =
  layout_def layout_locals_def justify_switch_def autoSize_block_def UIBox_setSize_def
  place_child_def advance_def crossPos_def childMainSize_def childCrossSize_def
  paddingTop_def paddingRight_def paddingBottom_def paddingLeft_def Let_def

lemma place_child_same_box: "same_box (place_child p mp child) child"
  by (simp add: place_child_def same_box_def Let_def)

lemma same_box_refl: "same_box a a"
  by (simp add: same_box_def)

lemma same_box_trans: "same_box a b \<Longrightarrow> same_box b c \<Longrightarrow> same_box a c"
  by (simp add: same_box_def)

lemma place_children_other:
  "c \<notin> set cs \<Longrightarrow> place_children p sp cs mp es c = es c"
  by (induction cs arbitrary: mp es) auto

lemma place_children_same_box:
  "same_box (place_children p sp cs mp es c) (es c)"
proof (induction cs arbitrary: mp es)
  case Nil
  show ?case by (simp add: same_box_refl)
next
  case (Cons a cs)
  let ?es = "es(a := place_child p mp (es a))"
  have "same_box (place_children p sp cs (advance p sp mp (es a)) ?es c) (?es c)"
    by (rule Cons.IH)
  moreover have "same_box (?es c) (es c)"
    by (simp add: place_child_same_box same_box_refl)
  ultimately show ?case
    using same_box_trans by fastforce
qed

lemma place_children_width:
  "width (place_children p sp cs mp es c) = width (es c)"
  using place_children_same_box [of p sp cs mp es c] by (simp add: same_box_def)

lemma place_children_height:
  "height (place_children p sp cs mp es c) = height (es c)"
  using place_children_same_box [of p sp cs mp es c] by (simp add: same_box_def)

lemma place_children_centered:
  assumes "align p = AlignCenter"
    and "c \<in> set cs \<or> cross_coordinate (direction p) (es c) = 0"
  shows "cross_coordinate (direction p) (place_children p sp cs mp es c) = 0"
  using assms(2)
proof (induction cs arbitrary: mp es)
  case Nil
  then show ?case by simp
next
  case (Cons a cs)
  let ?es = "es(a := place_child p mp (es a))"
  have placed: "cross_coordinate (direction p) (place_child p mp (es a)) = 0"
    using assms(1) by (simp add: place_child_def crossPos_def cross_coordinate_def Let_def)
  have "c \<in> set cs \<or> cross_coordinate (direction p) (?es c) = 0"
    using Cons.prems placed by auto
  then show ?case
    using Cons.IH by simp
qed

lemma sized_align: "align (sized (layout_locals p es cs)) = align p"
  by (simp add: layout_locals_def autoSize_block_def Let_def split: prod.splits option.splits)

lemma sized_direction: "direction (sized (layout_locals p es cs)) = direction p"
  by (simp add: layout_locals_def autoSize_block_def Let_def split: prod.splits option.splits)

subsection \<open>The empty child list\<close>

text \<open>Claim C9. With an empty child list \<^verbatim>\<open>layout\<close> returns the state it was given,
  whatever the parameters are (also with \<^verbatim>\<open>autoSize\<close> and a background): the size,
  the background, the stores and every other field are unchanged. The function has no
  failing branch, so nothing is raised.\<close>

theorem layout_empty_noop:
  "children_of w = [] \<Longrightarrow> layout w = w"
  by (simp add: layout_def)

theorem layout_empty_noop_witness:
  "children_of empty_autosize_world = []
   \<and> autoSize (panel empty_autosize_world)
   \<and> background (panel empty_autosize_world) \<noteq> None
   \<and> layout empty_autosize_world = empty_autosize_world"
  using layout_empty_noop [of empty_autosize_world]
  by (simp add: empty_autosize_world_def panel_defs)

subsection \<open>Centered alignment\<close>

text \<open>Claim C6. With \<^verbatim>\<open>align = center\<close> every child of the panel has, after
  \<^verbatim>\<open>layout\<close>, the cross-axis coordinate 0, whatever its own size, the padding and the
  size of the panel are. Two children of different cross sizes therefore get the same
  cross coordinate.\<close>

theorem align_center_cross_zero:
  assumes "align (panel w) = AlignCenter" and "c \<in> set (children_of w)"
  shows "cross_coordinate (direction (panel w)) (elements (layout w) c) = 0"
proof -
  let ?v = "layout_locals (panel w) (elements w) (children_of w)"
  have ne: "length (children_of w) \<noteq> 0"
    using assms(2) by auto
  have "cross_coordinate (direction (sized ?v))
          (place_children (sized ?v) (spacing ?v) (children_of w) (mainPos ?v) (elements w) c) = 0"
    by (rule place_children_centered) (simp_all add: sized_align assms)
  then show ?thesis
    using ne by (simp add: layout_def Let_def sized_direction)
qed

theorem align_center_cross_zero_witness:
  "align (panel centered_world) = AlignCenter
   \<and> 0 \<in> set (children_of centered_world) \<and> 1 \<in> set (children_of centered_world)
   \<and> childCrossSize (direction (panel centered_world)) (elements centered_world 0) = 1
   \<and> childCrossSize (direction (panel centered_world)) (elements centered_world 1) = 2
   \<and> position_x (elements (layout centered_world) 0) = 0
   \<and> position_x (elements (layout centered_world) 1) = 0"
  using align_center_cross_zero [of centered_world 0] align_center_cross_zero [of centered_world 1]
  by (simp add: centered_world_def panel_defs cross_coordinate_def childCrossSize_def)

subsection \<open>One child at the start of both axes\<close>

text \<open>Claim C8. In a horizontal panel of size (4, 2) with \<^verbatim>\<open>justify = start\<close>,
  \<^verbatim>\<open>align = start\<close>, no padding and no gap, whose size is fixed (\<^verbatim>\<open>autoSize\<close> is off,
  the default), a single child of size (1, 1) is placed at X = -1.5 and Y = -0.5.\<close>

theorem single_child_start_start:
  assumes "direction (panel w) = Horizontal"
    and "width (panel w) = 4" and "height (panel w) = 2"
    and "justify (panel w) = JustifyStart" and "align (panel w) = AlignStart"
    and "padding (panel w) = (0, 0, 0, 0)" and "gap (panel w) = 0"
    and "\<not> autoSize (panel w)"
    and "children_of w = [c]"
    and "width (elements w c) = 1" and "height (elements w c) = 1"
  shows "position_x (elements (layout w) c) = - 1.5
         \<and> position_y (elements (layout w) c) = - 0.5"
  using assms by (simp add: layout_defs)

theorem single_child_start_start_witness:
  "direction (panel single_child_world) = Horizontal
   \<and> width (panel single_child_world) = 4 \<and> height (panel single_child_world) = 2
   \<and> justify (panel single_child_world) = JustifyStart
   \<and> align (panel single_child_world) = AlignStart
   \<and> padding (panel single_child_world) = (0, 0, 0, 0) \<and> gap (panel single_child_world) = 0
   \<and> \<not> autoSize (panel single_child_world)
   \<and> children_of single_child_world = [0]
   \<and> width (elements single_child_world 0) = 1 \<and> height (elements single_child_world 0) = 1
   \<and> position_x (elements (layout single_child_world) 0) = - 1.5
   \<and> position_y (elements (layout single_child_world) 0) = - 0.5"
  using single_child_start_start [of single_child_world 0]
  by (simp add: single_child_world_def panel_defs)

subsection \<open>The measuring loop\<close>

lemma measure_children_step:
  "measure_children d es (c # cs) (t, m) =
     measure_children d es cs (t + childMainSize d (es c), max m (childCrossSize d (es c)))"
  by (simp add: childMainSize_def childCrossSize_def)

subsection \<open>The background follows the size of the panel\<close>

lemma autoSize_block_in_sync: "background_in_sync (autoSize_block t m p)"
  by (simp add: autoSize_block_def background_in_sync_def UIBox_setSize_def Let_def
      split: option.splits)

lemma sized_in_sync:
  "background_in_sync p \<Longrightarrow> background_in_sync (sized (layout_locals p es cs))"
  by (simp add: layout_locals_def Let_def autoSize_block_in_sync)

lemma layout_in_sync:
  "background_in_sync (panel w) \<Longrightarrow> background_in_sync (panel (layout w))"
  by (simp add: layout_def Let_def sized_in_sync)

lemma new_UIPanel_in_sync: "background_in_sync (panel (new_UIPanel config es arrs n))"
  by (simp add: new_UIPanel_def background_in_sync_def new_UIBox_def Let_def)

lemma step_in_sync:
  assumes "background_in_sync (panel w)"
  shows "background_in_sync (panel (step x w))"
proof (cases x)
  case (SetSize wd ht)
  have "background_in_sync (panel (setSize wd ht w))"
    unfolding setSize_def Let_def
    by (rule layout_in_sync)
      (simp add: background_in_sync_def UIBox_setSize_def split: option.splits)
  then show ?thesis using SetSize by simp
next
  case (SetBackgroundColor c)
  then show ?thesis
    using assms
    by (simp add: setBackgroundColor_def background_in_sync_def UIBox_setColor_def
        split: option.splits)
next
  case (SetBorder bw c)
  then show ?thesis
    using assms
    by (simp add: setBorder_def background_in_sync_def UIBox_setBorder_def
        split: option.splits)
next
  case (AddChild c)
  have "background_in_sync (panel (push_child c w))"
    using assms by (simp add: push_child_def)
  then show ?thesis
    using AddChild by (simp add: addChild_def layout_in_sync)
next
  case (RemoveChild c)
  have "background_in_sync
          (panel (w\<lparr>arrays := (arrays w)(children (panel w) := remove1 c (children_of w))\<rparr>))"
    using assms by simp
  then show ?thesis
    using RemoveChild assms by (simp add: removeChild_def layout_in_sync)
next
  case ClearChildren
  have "background_in_sync
          (panel (w\<lparr>panel := (panel w)\<lparr>children := next_array w\<rparr>,
                    arrays := (arrays w)(next_array w := []),
                    next_array := Suc (next_array w)\<rparr>))"
    using assms by (simp add: background_in_sync_def split: option.splits)
  then show ?thesis
    using ClearChildren by (simp add: clearChildren_def layout_in_sync)
next
  case GetChildren
  then show ?thesis using assms by (simp add: getChildren_def)
next
  case Layout
  then show ?thesis using assms by (simp add: layout_in_sync)
next
  case (SetDirection d)
  have "background_in_sync (panel (w\<lparr>panel := (panel w)\<lparr>direction := d\<rparr>\<rparr>))"
    using assms by (simp add: background_in_sync_def split: option.splits)
  then show ?thesis
    using SetDirection by (simp add: setDirection_def layout_in_sync)
next
  case (SetAlign a)
  have "background_in_sync (panel (w\<lparr>panel := (panel w)\<lparr>align := a\<rparr>\<rparr>))"
    using assms by (simp add: background_in_sync_def split: option.splits)
  then show ?thesis
    using SetAlign by (simp add: setAlign_def layout_in_sync)
next
  case (SetJustify j)
  have "background_in_sync (panel (w\<lparr>panel := (panel w)\<lparr>justify := j\<rparr>\<rparr>))"
    using assms by (simp add: background_in_sync_def split: option.splits)
  then show ?thesis
    using SetJustify by (simp add: setJustify_def layout_in_sync)
next
  case (SetGap g)
  have "background_in_sync (panel (w\<lparr>panel := (panel w)\<lparr>gap := g\<rparr>\<rparr>))"
    using assms by (simp add: background_in_sync_def split: option.splits)
  then show ?thesis
    using SetGap by (simp add: setGap_def layout_in_sync)
next
  case (SetPadding a)
  have "background_in_sync (panel (w\<lparr>panel := (panel w)\<lparr>padding := q\<rparr>\<rparr>))" for q
    using assms by (simp add: background_in_sync_def split: option.splits)
  then show ?thesis
    using SetPadding by (simp add: setPadding_def layout_in_sync)
next
  case (ChildSetSize c wd ht)
  then show ?thesis using assms by (simp add: child_setSize_def)
qed

lemma run_in_sync:
  "background_in_sync (panel w) \<Longrightarrow> background_in_sync (panel (run ops w))"
  by (induction ops arbitrary: w) (simp_all add: step_in_sync)

text \<open>Claim C5. In every state reached from the constructor by the operations of the panel
  (\<^verbatim>\<open>addChild\<close>, \<^verbatim>\<open>removeChild\<close>, \<^verbatim>\<open>clearChildren\<close>, \<^verbatim>\<open>getChildren\<close>,
  \<^verbatim>\<open>layout\<close>, the setters of the parameters, of the background colour and of the border,
  \<^verbatim>\<open>setSize\<close>), with the children resized between them at will, the background visual,
  when the panel has one, has the width and the height of the panel.\<close>

theorem background_always_in_sync:
  "background_in_sync (panel (run ops (new_UIPanel config es arrs n)))"
  by (rule run_in_sync) (rule new_UIPanel_in_sync)

theorem background_always_in_sync_witness:
  "map_option width (background (panel padded_autosize_world)) = Some 3
   \<and> map_option height (background (panel padded_autosize_world)) = Some 3
   \<and> width (panel padded_autosize_world) = 3 \<and> height (panel padded_autosize_world) = 3
   \<and> background_in_sync (panel padded_autosize_world)"
  using background_always_in_sync [of "[AddChild 0, SetPadding (Uniform 1)]"
      "empty_config\<lparr>cfg_autoSize := Some True, cfg_backgroundColor := Some 0\<rparr>"
      "\<lambda>_. sized_element 1 1" "\<lambda>_. []" 0]
  by (simp add: padded_autosize_world_def panel_defs addChild_def setPadding_def layout_defs)

subsection \<open>The array returned by getChildren\<close>

lemma layout_children: "children (panel (layout w)) = children (panel w)"
  by (simp add: layout_def layout_locals_def autoSize_block_def Let_def split: option.splits)

lemma layout_arrays: "arrays (layout w) = arrays w"
  by (simp add: layout_def Let_def)

lemma layout_next_array: "next_array (layout w) = next_array w"
  by (simp add: layout_def Let_def)

lemma layout_children_of: "children_of (layout w) = children_of w"
  by (simp add: children_of_def layout_children layout_arrays)

lemma layout_detached: "detached a (layout w) = detached a w"
  by (simp add: detached_def children_allocated_def layout_children layout_next_array)

lemma layout_array_write:
  assumes "a \<noteq> children (panel w)"
  shows "layout (array_write a ys w) = array_write a ys (layout w)"
proof -
  have "children_of (array_write a ys w) = children_of w"
    using assms by (simp add: children_of_def array_write_def)
  then show ?thesis
    by (simp add: layout_def Let_def array_write_def)
qed

lemma step_array_write:
  assumes "detached a w"
  shows "step x (array_write a ys w) = array_write a ys (step x w) \<and> detached a (step x w)"
proof (cases x)
  case (AddChild c)
  have "detached a (push_child c w)"
    using assms by (simp add: detached_def children_allocated_def push_child_def)
  moreover have "push_child c (array_write a ys w) = array_write a ys (push_child c w)"
    using assms by (simp add: detached_def push_child_def array_write_def children_of_def
        fun_upd_twist)
  ultimately show ?thesis
    using AddChild by (simp add: addChild_def layout_array_write detached_def layout_detached
        children_allocated_def layout_children layout_next_array)
next
  case (RemoveChild c)
  let ?u = "\<lambda>w. w\<lparr>arrays := (arrays w)(children (panel w) := remove1 c (children_of w))\<rparr>"
  have co: "children_of (array_write a ys w) = children_of w"
    using assms by (simp add: detached_def array_write_def children_of_def)
  have "detached a (?u w)"
    using assms by (simp add: detached_def children_allocated_def)
  moreover have "?u (array_write a ys w) = array_write a ys (?u w)"
    using assms by (simp add: detached_def array_write_def children_of_def fun_upd_twist)
  ultimately show ?thesis
    using RemoveChild assms co
    by (simp add: removeChild_def layout_array_write detached_def layout_detached
        children_allocated_def layout_children layout_next_array)
next
  case ClearChildren
  let ?u = "\<lambda>w. w\<lparr>panel := (panel w)\<lparr>children := next_array w\<rparr>,
                    arrays := (arrays w)(next_array w := []),
                    next_array := Suc (next_array w)\<rparr>"
  have "detached a (?u w)"
    using assms by (simp add: detached_def children_allocated_def)
  moreover have "?u (array_write a ys w) = array_write a ys (?u w)"
    using assms by (simp add: detached_def array_write_def fun_upd_twist)
  ultimately show ?thesis
    using ClearChildren
    by (simp add: clearChildren_def layout_array_write detached_def layout_detached
        children_allocated_def layout_children layout_next_array)
next
  case GetChildren
  then show ?thesis
    using assms
    by (simp add: getChildren_def detached_def children_allocated_def array_write_def
        children_of_def fun_upd_twist)
next
  case Layout
  then show ?thesis
    using assms by (simp add: layout_array_write detached_def layout_detached
        children_allocated_def layout_children layout_next_array)
next
  case (SetDirection d)
  let ?u = "\<lambda>w. w\<lparr>panel := (panel w)\<lparr>direction := d\<rparr>\<rparr>"
  have "detached a (?u w)"
    using assms by (simp add: detached_def children_allocated_def)
  moreover have "?u (array_write a ys w) = array_write a ys (?u w)"
    by (simp add: array_write_def)
  ultimately show ?thesis
    using SetDirection
    by (simp add: setDirection_def layout_array_write detached_def layout_detached
        children_allocated_def layout_children layout_next_array)
next
  case (SetAlign al)
  let ?u = "\<lambda>w. w\<lparr>panel := (panel w)\<lparr>align := al\<rparr>\<rparr>"
  have "detached a (?u w)"
    using assms by (simp add: detached_def children_allocated_def)
  moreover have "?u (array_write a ys w) = array_write a ys (?u w)"
    by (simp add: array_write_def)
  ultimately show ?thesis
    using SetAlign
    by (simp add: setAlign_def layout_array_write detached_def layout_detached
        children_allocated_def layout_children layout_next_array)
next
  case (SetJustify j)
  let ?u = "\<lambda>w. w\<lparr>panel := (panel w)\<lparr>justify := j\<rparr>\<rparr>"
  have "detached a (?u w)"
    using assms by (simp add: detached_def children_allocated_def)
  moreover have "?u (array_write a ys w) = array_write a ys (?u w)"
    by (simp add: array_write_def)
  ultimately show ?thesis
    using SetJustify
    by (simp add: setJustify_def layout_array_write detached_def layout_detached
        children_allocated_def layout_children layout_next_array)
next
  case (SetGap g)
  let ?u = "\<lambda>w. w\<lparr>panel := (panel w)\<lparr>gap := g\<rparr>\<rparr>"
  have "detached a (?u w)"
    using assms by (simp add: detached_def children_allocated_def)
  moreover have "?u (array_write a ys w) = array_write a ys (?u w)"
    by (simp add: array_write_def)
  ultimately show ?thesis
    using SetGap
    by (simp add: setGap_def layout_array_write detached_def layout_detached
        children_allocated_def layout_children layout_next_array)
next
  case (SetPadding q)
  let ?u = "\<lambda>w. w\<lparr>panel := (panel w)\<lparr>padding :=
                 (case q of Uniform x \<Rightarrow> (x, x, x, x) | Sides t r b l \<Rightarrow> (t, r, b, l))\<rparr>\<rparr>"
  have "detached a (?u w)"
    using assms by (simp add: detached_def children_allocated_def)
  moreover have "?u (array_write a ys w) = array_write a ys (?u w)"
    by (simp add: array_write_def)
  ultimately show ?thesis
    using SetPadding
    by (simp add: setPadding_def layout_array_write detached_def layout_detached
        children_allocated_def layout_children layout_next_array)
next
  case (SetBackgroundColor c)
  then show ?thesis
    using assms
    by (simp add: setBackgroundColor_def detached_def children_allocated_def array_write_def
        split: option.splits)
next
  case (SetBorder bw c)
  then show ?thesis
    using assms
    by (simp add: setBorder_def detached_def children_allocated_def array_write_def
        split: option.splits)
next
  case (SetSize wd ht)
  let ?u = "\<lambda>w. w\<lparr>panel :=
                 (case background ((panel w)\<lparr>width := wd, height := ht\<rparr>) of
                    None \<Rightarrow> (panel w)\<lparr>width := wd, height := ht\<rparr>
                  | Some b \<Rightarrow> (panel w)\<lparr>width := wd, height := ht,
                                background := Some (UIBox_setSize wd ht b)\<rparr>)\<rparr>"
  have "detached a (?u w)"
    using assms by (simp add: detached_def children_allocated_def split: option.splits)
  moreover have "?u (array_write a ys w) = array_write a ys (?u w)"
    by (simp add: array_write_def split: option.splits)
  ultimately show ?thesis
    using SetSize
    by (simp add: setSize_def Let_def layout_array_write detached_def layout_detached
        children_allocated_def layout_children layout_next_array)
next
  case (ChildSetSize c wd ht)
  then show ?thesis
    using assms
    by (simp add: child_setSize_def detached_def children_allocated_def array_write_def)
qed

lemma run_array_write:
  "detached a w \<Longrightarrow>
     run ops (array_write a ys w) = array_write a ys (run ops w) \<and> detached a (run ops w)"
proof (induction ops arbitrary: w)
  case Nil
  then show ?case by simp
next
  case (Cons x ops)
  then show ?case
    using step_array_write [of a w x ys] by simp
qed

lemma new_UIPanel_allocated: "children_allocated (new_UIPanel config es arrs n)"
  by (simp add: new_UIPanel_def children_allocated_def Let_def)

lemma layout_allocated: "children_allocated (layout w) = children_allocated w"
  by (simp add: children_allocated_def layout_children layout_next_array)

lemma step_allocated:
  assumes "children_allocated w"
  shows "children_allocated (step x w)"
proof (cases x)
  case (SetSize wd ht)
  then show ?thesis
    using assms
    by (simp add: setSize_def Let_def children_allocated_def layout_children
        layout_next_array split: option.splits)
qed (use assms in \<open>simp_all add: addChild_def removeChild_def clearChildren_def getChildren_def
      setDirection_def setAlign_def setJustify_def setGap_def setPadding_def
      setBackgroundColor_def setBorder_def child_setSize_def push_child_def
      children_allocated_def layout_children layout_next_array split: option.splits\<close>)

lemma run_allocated: "children_allocated w \<Longrightarrow> children_allocated (run ops w)"
  by (induction ops arbitrary: w) (simp_all add: step_allocated)

text \<open>Every state reached from the constructor has the array of the panel allocated.\<close>

lemma reachable_allocated: "children_allocated (run ops (new_UIPanel config es arrs n))"
  by (rule run_allocated) (rule new_UIPanel_allocated)

lemma getChildren_detached:
  "children_allocated w \<Longrightarrow> detached (fst (getChildren w)) (snd (getChildren w))"
  by (auto simp: getChildren_def detached_def children_allocated_def)


text \<open>Claim C10. \<^verbatim>\<open>getChildren\<close> returns a new array on every call: its reference
  \<open>a\<close> differs from the reference of the panel's own array and from the one a
  second call returns, and it holds a copy of the child list. When the caller changes the
  returned array in any way (its contents become \<open>ys\<close>), the child list of the panel
  is unchanged, and after any later sequence of operations (\<^verbatim>\<open>layout\<close> and
  \<^verbatim>\<open>getChildren\<close> among them) the panel, the children's positions, the child list
  and the contents \<^verbatim>\<open>getChildren\<close> returns are what they are without the change.
  The state is any in which the panel's own array is allocated, as it is in every state
  reached from the constructor (\<open>reachable_allocated\<close>).\<close>

theorem getChildren_fresh_copy:
  assumes "children_allocated w" and "getChildren w = (a, w1)"
  shows "a \<noteq> children (panel w)
       \<and> arrays w1 a = children_of w
       \<and> panel w1 = panel w \<and> elements w1 = elements w \<and> children_of w1 = children_of w
       \<and> fst (getChildren w1) \<noteq> a
       \<and> children_of (array_write a ys w1) = children_of w
       \<and> panel (run ops (array_write a ys w1)) = panel (run ops w1)
       \<and> elements (run ops (array_write a ys w1)) = elements (run ops w1)
       \<and> children_of (run ops (array_write a ys w1)) = children_of (run ops w1)
       \<and> arrays (snd (getChildren (run ops (array_write a ys w1))))
                  (fst (getChildren (run ops (array_write a ys w1))))
            = children_of (run ops w1)"
proof -
  have a: "a = next_array w"
    and w1: "w1 = w\<lparr>arrays := (arrays w)(next_array w := children_of w),
                       next_array := Suc (next_array w)\<rparr>"
    using assms(2) by (auto simp: getChildren_def)
  have neq: "a \<noteq> children (panel w)"
    using assms(1) a by (simp add: children_allocated_def)
  have det: "detached a w1"
    using getChildren_detached [OF assms(1)] assms(2) by simp
  have comm: "run ops (array_write a ys w1) = array_write a ys (run ops w1)"
    and det': "detached a (run ops w1)"
    using run_array_write [OF det] by simp_all
  have co: "children_of (array_write a ys w') = children_of w'" if "detached a w'" for w'
    using that by (simp add: detached_def array_write_def children_of_def)
  have copy: "arrays (snd (getChildren w')) (fst (getChildren w')) = children_of w'" for w'
    by (simp add: getChildren_def)
  have "children_of w1 = children_of w"
    using neq by (simp add: w1 a children_of_def)
  moreover have "arrays w1 a = children_of w"
    by (simp add: w1 a)
  moreover have "panel w1 = panel w" and "elements w1 = elements w"
    by (simp_all add: w1)
  moreover have "fst (getChildren w1) \<noteq> a"
    by (simp add: getChildren_def w1 a)
  moreover have "panel (run ops (array_write a ys w1)) = panel (run ops w1)"
    and "elements (run ops (array_write a ys w1)) = elements (run ops w1)"
    unfolding comm by (simp_all add: array_write_def)
  moreover have "children_of (run ops (array_write a ys w1)) = children_of (run ops w1)"
    by (simp add: comm co [OF det'])
  ultimately show ?thesis
    using neq by (simp add: copy co [OF det])
qed

theorem getChildren_fresh_copy_witness:
  "children_allocated getChildren_world
   \<and> children_of getChildren_world = [0, 1]
   \<and> fst (getChildren getChildren_world) \<noteq> children (panel getChildren_world)
   \<and> arrays (snd (getChildren getChildren_world)) (fst (getChildren getChildren_world)) = [0, 1]
   \<and> children_of (array_write (fst (getChildren getChildren_world)) [1, 1, 0]
                     (snd (getChildren getChildren_world))) = [0, 1]
   \<and> elements (run [Layout] (array_write (fst (getChildren getChildren_world)) [1, 1, 0]
                                (snd (getChildren getChildren_world))))
       = elements (run [Layout] (snd (getChildren getChildren_world)))"
  using getChildren_fresh_copy [of getChildren_world "fst (getChildren getChildren_world)"
      "snd (getChildren getChildren_world)" "[1, 1, 0]" "[Layout]"]
  by (simp add: getChildren_world_def panel_defs children_allocated_def)

subsection \<open>The local variables of the pass\<close>

lemma locals_justify: "justify (sized (layout_locals p es cs)) = justify p"
  by (simp add: layout_locals_def autoSize_block_def Let_def split: option.splits)

lemma locals_gap: "gap (sized (layout_locals p es cs)) = gap p"
  by (simp add: layout_locals_def autoSize_block_def Let_def split: option.splits)

lemma locals_switch:
  "(mainPos (layout_locals p es cs), spacing (layout_locals p es cs)) =
     justify_switch (justify p) (mainStart (layout_locals p es cs))
       (mainSize (layout_locals p es cs)) (totalMainSize (layout_locals p es cs)) (gap p)
       (length cs)"
proof -
  let ?v = "layout_locals p es cs"
  have "justify (sized ?v) = justify p" and "gap (sized ?v) = gap p"
    by (rule locals_justify, rule locals_gap)
  then show ?thesis
    by (simp add: layout_locals_def Let_def)
qed

lemma layout_elements:
  assumes "children_of w \<noteq> []"
  shows "elements (layout w) =
           place_children (sized (layout_locals (panel w) (elements w) (children_of w)))
             (spacing (layout_locals (panel w) (elements w) (children_of w)))
             (children_of w)
             (mainPos (layout_locals (panel w) (elements w) (children_of w)))
             (elements w)"
  using assms by (simp add: layout_def Let_def)

lemma layout_panel:
  assumes "children_of w \<noteq> []"
  shows "panel (layout w) = sized (layout_locals (panel w) (elements w) (children_of w))"
  using assms by (simp add: layout_def Let_def)

lemma locals_mainStart:
  "mainStart (layout_locals p es cs) =
     (if direction p = Horizontal
      then - width (sized (layout_locals p es cs)) / 2 + paddingLeft p
      else height (sized (layout_locals p es cs)) / 2 - paddingTop p)"
proof -
  have "direction (sized (layout_locals p es cs)) = direction p"
    by (rule sized_direction)
  then show ?thesis
    by (simp add: layout_locals_def Let_def)
qed

lemma locals_fixed_size: "\<not> autoSize p \<Longrightarrow> sized (layout_locals p es cs) = p"
  by (simp add: layout_locals_def Let_def)

subsection \<open>Repeating the layout pass\<close>

lemma same_box_sizes:
  assumes "same_box a b"
  shows "childMainSize d a = childMainSize d b" and "childCrossSize d a = childCrossSize d b"
  using assms by (simp_all add: same_box_def childMainSize_def childCrossSize_def)

lemma place_child_cong:
  assumes "same_box a b"
  shows "place_child p mp a = place_child p mp b"
proof -
  have "crossPos p a = crossPos p b"
    unfolding crossPos_def same_box_sizes(2) [OF assms] ..
  then show ?thesis
    using assms same_box_sizes(1) [OF assms, of "direction p"]
    by (cases a, cases b) (simp add: place_child_def same_box_def Let_def)
qed

lemma advance_cong: "same_box a b \<Longrightarrow> advance p sp mp a = advance p sp mp b"
  using same_box_sizes(1) [of a b "direction p"] by (simp add: advance_def Let_def)

lemma place_children_cong:
  assumes "\<forall>c. same_box (es c) (es' c)" and "\<forall>c. c \<notin> set cs \<longrightarrow> es c = es' c"
  shows "place_children p sp cs mp es = place_children p sp cs mp es'"
  using assms
proof (induction cs arbitrary: mp es es')
  case Nil
  then show ?case by auto
next
  case (Cons a cs)
  have sb: "same_box (es a) (es' a)"
    using Cons.prems(1) by simp
  let ?e = "es(a := place_child p mp (es a))" and ?e' = "es'(a := place_child p mp (es' a))"
  have pc: "place_child p mp (es a) = place_child p mp (es' a)"
    using sb by (rule place_child_cong)
  have 1: "\<forall>c. same_box (?e c) (?e' c)"
    using Cons.prems(1) pc by (simp add: same_box_refl)
  have 2: "\<forall>c. c \<notin> set cs \<longrightarrow> ?e c = ?e' c"
    using Cons.prems(2) pc by simp
  have "place_children p sp cs (advance p sp mp (es a)) ?e
        = place_children p sp cs (advance p sp mp (es a)) ?e'"
    using 1 2 by (rule Cons.IH)
  then show ?case
    by (simp add: advance_cong [OF sb])
qed

lemma measure_children_cong:
  assumes "\<forall>c. same_box (es c) (es' c)"
  shows "measure_children d es cs acc = measure_children d es' cs acc"
proof (induction cs arbitrary: acc)
  case Nil
  show ?case by simp
next
  case (Cons a cs)
  obtain t m where acc: "acc = (t, m)" by (cases acc)
  have "same_box (es a) (es' a)" using assms by simp
  then show ?case
    unfolding acc measure_children_step Cons.IH
    by (simp add: same_box_sizes)
qed

lemma layout_locals_cong:
  assumes "\<forall>c. same_box (es c) (es' c)"
  shows "layout_locals p es cs = layout_locals p es' cs"
  by (simp add: layout_locals_def measure_children_cong [OF assms])

lemma place_children_again:
  "place_children p sp cs mp (place_children p sp cs mp es) = place_children p sp cs mp es"
  by (rule place_children_cong) (simp_all add: place_children_same_box place_children_other)

lemma layout_idempotent_if_sized:
  assumes "children_of w = []
           \<or> sized (layout_locals (panel w) (elements w) (children_of w)) = panel w"
  shows "layout (layout w) = layout w"
proof (cases "children_of w = []")
  case True
  then show ?thesis by (simp add: layout_def)
next
  case False
  define v where "v = layout_locals (panel w) (elements w) (children_of w)"
  define es1 where
    "es1 = place_children (panel w) (spacing v) (children_of w) (mainPos v) (elements w)"
  have sv: "sized v = panel w"
    using assms False by (simp add: v_def)
  have l1: "layout w = w\<lparr>elements := es1\<rparr>"
    using False sv by (simp add: layout_def Let_def es1_def flip: v_def)
  have c1: "children_of (w\<lparr>elements := es1\<rparr>) = children_of w"
    by (simp add: children_of_def)
  have v1: "layout_locals (panel w) es1 (children_of w) = v"
    unfolding v_def es1_def
    by (rule layout_locals_cong) (simp add: place_children_same_box)
  have again: "place_children (panel w) (spacing v) (children_of w) (mainPos v) es1 = es1"
    unfolding es1_def by (rule place_children_again)
  have "layout (w\<lparr>elements := es1\<rparr>) = w\<lparr>elements := es1\<rparr>"
    using False by (simp add: layout_def Let_def c1 v1 sv again)
  then show ?thesis
    by (simp add: l1)
qed

lemma layout_idempotent_fixed_size:
  "\<not> autoSize (panel w) \<Longrightarrow> layout (layout w) = layout w"
  by (rule layout_idempotent_if_sized) (simp add: locals_fixed_size)


lemma paddings_of_resized:
  "paddingTop (p\<lparr>width := a, height := b\<rparr>) = paddingTop p"
  "paddingRight (p\<lparr>width := a, height := b\<rparr>) = paddingRight p"
  "paddingBottom (p\<lparr>width := a, height := b\<rparr>) = paddingBottom p"
  "paddingLeft (p\<lparr>width := a, height := b\<rparr>) = paddingLeft p"
  "paddingTop (p\<lparr>background := g\<rparr>) = paddingTop p"
  "paddingRight (p\<lparr>background := g\<rparr>) = paddingRight p"
  "paddingBottom (p\<lparr>background := g\<rparr>) = paddingBottom p"
  "paddingLeft (p\<lparr>background := g\<rparr>) = paddingLeft p"
  by (simp_all add: paddingTop_def paddingRight_def paddingBottom_def paddingLeft_def)

lemma autoSize_block_eq:
  "autoSize_block t m p =
     p\<lparr>width := (if direction p = Horizontal then t else m) + paddingLeft p + paddingRight p,
       height := (if direction p = Horizontal then m else t) + paddingTop p + paddingBottom p,
       background :=
         map_option
           (UIBox_setSize
              ((if direction p = Horizontal then t else m) + paddingLeft p + paddingRight p)
              ((if direction p = Horizontal then m else t) + paddingTop p + paddingBottom p))
           (background p)\<rparr>"
proof (cases "background p")
  case None
  then show ?thesis
    by (cases "direction p = Horizontal") (simp_all add: autoSize_block_def Let_def)
next
  case (Some b)
  then show ?thesis
    by (cases "direction p = Horizontal") (simp_all add: autoSize_block_def Let_def)
qed

lemma UIBox_setSize_again: "UIBox_setSize a b (UIBox_setSize a b x) = UIBox_setSize a b x"
  by (simp add: UIBox_setSize_def)

lemma autoSize_block_again:
  "autoSize_block t m (autoSize_block t m p) = autoSize_block t m p"
proof -
  let ?q = "autoSize_block t m p"
  have d: "direction ?q = direction p"
    and pad: "paddingLeft ?q = paddingLeft p" "paddingRight ?q = paddingRight p"
      "paddingTop ?q = paddingTop p" "paddingBottom ?q = paddingBottom p"
    and bg: "background ?q =
         map_option
           (UIBox_setSize
              ((if direction p = Horizontal then t else m) + paddingLeft p + paddingRight p)
              ((if direction p = Horizontal then m else t) + paddingTop p + paddingBottom p))
           (background p)"
    unfolding autoSize_block_eq [of t m p]
    by (simp_all add: paddingTop_def paddingRight_def paddingBottom_def paddingLeft_def)
  show ?thesis
    unfolding autoSize_block_eq [of t m ?q] d pad bg
    unfolding autoSize_block_eq [of t m p]
    by (simp add: option.map_comp comp_def UIBox_setSize_again)
qed


lemma locals_sized:
  "sized (layout_locals p es cs) =
     (if autoSize p
      then autoSize_block (totalMainSize (layout_locals p es cs))
             (maxCrossSize (layout_locals p es cs)) p
      else p)"
  by (simp add: layout_locals_def Let_def)

lemma locals_measures_entry_independent:
  assumes "direction p' = direction p" and "gap p' = gap p"
  shows "totalMainSize (layout_locals p' es cs) = totalMainSize (layout_locals p es cs)"
    and "maxCrossSize (layout_locals p' es cs) = maxCrossSize (layout_locals p es cs)"
  using assms by (simp_all add: layout_locals_def Let_def)

lemma autoSize_block_params:
  "direction (autoSize_block t m p) = direction p"
  "gap (autoSize_block t m p) = gap p"
  "autoSize (autoSize_block t m p) = autoSize p"
  by (simp_all add: autoSize_block_def Let_def split: option.splits)

lemma layout_reaches_fixed_size:
  "children_of (layout w) = []
   \<or> sized (layout_locals (panel (layout w)) (elements (layout w)) (children_of (layout w)))
       = panel (layout w)"
proof (cases "children_of w = [] \<or> \<not> autoSize (panel w)")
  case True
  show ?thesis
  proof (cases "children_of w = []")
    case True
    then show ?thesis by (simp add: layout_children_of)
  next
    case False
    then have "panel (layout w) = panel w"
      using True by (simp add: layout_panel locals_fixed_size)
    then show ?thesis
      using True False by (simp add: locals_fixed_size)
  qed
next
  case False
  let ?p = "panel w" and ?cs = "children_of w"
  let ?v = "layout_locals ?p (elements w) ?cs"
  let ?t = "totalMainSize ?v" and ?m = "maxCrossSize ?v"
  have p1: "panel (layout w) = autoSize_block ?t ?m ?p"
    using False by (simp add: layout_panel locals_sized)
  have "layout_locals (autoSize_block ?t ?m ?p) (elements (layout w)) ?cs
        = layout_locals (autoSize_block ?t ?m ?p) (elements w) ?cs"
    using False
    by (intro layout_locals_cong) (simp add: layout_elements place_children_same_box)
  moreover have "totalMainSize (layout_locals (autoSize_block ?t ?m ?p) (elements w) ?cs) = ?t"
    and "maxCrossSize (layout_locals (autoSize_block ?t ?m ?p) (elements w) ?cs) = ?m"
    using locals_measures_entry_independent
            [of "autoSize_block ?t ?m ?p" ?p "elements w" ?cs]
    by (simp_all add: autoSize_block_params)
  ultimately show ?thesis
    using False
    by (simp add: p1 layout_children_of locals_sized autoSize_block_params autoSize_block_again)
qed

lemma layout_stable_from_second_pass:
  "layout (layout (layout w)) = layout (layout w)"
  by (rule layout_idempotent_if_sized) (rule layout_reaches_fixed_size)



lemma layout_idempotent_justify_start:
  assumes "justify (panel w) = JustifyStart"
  shows "layout (layout w) = layout w"
proof (cases "children_of w = []")
  case True
  then show ?thesis by (simp add: layout_def)
next
  case False
  define v where "v = layout_locals (panel w) (elements w) (children_of w)"
  define w1 where "w1 = layout w"
  define v1 where "v1 = layout_locals (panel w1) (elements w1) (children_of w1)"
  have c1: "children_of w1 = children_of w"
    by (simp add: w1_def layout_children_of)
  have ne1: "children_of w1 \<noteq> []"
    using False c1 by simp
  have p1: "panel w1 = sized v"
    using False by (simp add: w1_def v_def layout_panel)
  have e1: "elements w1 = place_children (sized v) (spacing v) (children_of w) (mainPos v) (elements w)"
    using False by (simp add: w1_def v_def layout_elements)
  have s1: "sized v1 = sized v"
    using layout_reaches_fixed_size [of w] ne1 by (simp add: v1_def w1_def p1 [unfolded w1_def])
  have j: "justify (sized v) = JustifyStart" and g: "gap (sized v) = gap (panel w)"
    using assms by (simp_all add: v_def locals_justify locals_gap)
  have sw: "mainPos v = mainStart v" "spacing v = gap (panel w)"
    using locals_switch [of "panel w" "elements w" "children_of w"] assms
    by (simp_all add: v_def justify_switch_def)
  have sw1: "mainPos v1 = mainStart v1" "spacing v1 = gap (panel w)"
    using locals_switch [of "panel w1" "elements w1" "children_of w1"] j g
    by (simp_all add: v1_def p1 justify_switch_def)
  have pads: "paddingLeft (sized v) = paddingLeft (panel w)"
    "paddingTop (sized v) = paddingTop (panel w)"
    by (simp_all add: v_def locals_sized autoSize_block_eq paddings_of_resized)
  have d: "direction (sized v) = direction (panel w)"
    by (simp add: v_def sized_direction)
  have ms1: "mainStart v1 =
               (if direction (panel w1) = Horizontal
                then - width (sized v1) / 2 + paddingLeft (panel w1)
                else height (sized v1) / 2 - paddingTop (panel w1))"
    unfolding v1_def by (rule locals_mainStart)
  have ms0: "mainStart v =
               (if direction (panel w) = Horizontal
                then - width (sized v) / 2 + paddingLeft (panel w)
                else height (sized v) / 2 - paddingTop (panel w))"
    unfolding v_def by (rule locals_mainStart)
  have ms: "mainStart v1 = mainStart v"
    unfolding ms1 ms0 s1 p1 pads d ..
  have "layout w1 = w1\<lparr>panel := sized v1,
          elements := place_children (sized v1) (spacing v1) (children_of w1) (mainPos v1) (elements w1)\<rparr>"
    using ne1 by (simp add: layout_def Let_def v1_def)
  also have "place_children (sized v1) (spacing v1) (children_of w1) (mainPos v1) (elements w1)
             = elements w1"
    unfolding s1 sw1 ms c1 e1 sw by (rule place_children_again)
  finally show ?thesis
    by (simp add: s1 flip: p1 w1_def)
qed

subsection \<open>The content extent of an auto-sized panel\<close>

text \<open>Claim C1 says that with \<^verbatim>\<open>autoSize\<close> and a non-empty child list the panel is resized
  from its children before any child is placed, and that the placement (\<^verbatim>\<open>mainStart\<close>
  and the content extent \<^verbatim>\<open>mainSize\<close> of the justify modes) uses the new size. The
  resize and \<^verbatim>\<open>mainStart\<close> do. \<^verbatim>\<open>mainSize\<close> does not: \<^verbatim>\<open>contentWidth\<close> and
  \<^verbatim>\<open>contentHeight\<close> are computed on entry (lines 125 and 126) and not again after the
  \<^verbatim>\<open>autoSize\<close> block. For a horizontal panel of entry width 10 with
  \<^verbatim>\<open>justify = center\<close> and one child of width 2, the pass leaves the panel and its
  background 2 wide and takes \<^verbatim>\<open>mainStart = -1\<close> from the new width, but
  \<^verbatim>\<open>mainSize = 10\<close> from the entry width where the new content width is 2, and centres
  the child at X = 4, outside the panel.\<close>

theorem autoSize_mainSize_from_entry_size:
  "children_of autosize_center_entry = [0]
   \<and> autoSize (panel autosize_center_entry)
   \<and> width (panel autosize_center_entry) = 10
   \<and> width (panel (layout autosize_center_entry)) = 2
   \<and> map_option width (background (panel (layout autosize_center_entry))) = Some 2
   \<and> mainStart (layout_locals (panel autosize_center_entry) (elements autosize_center_entry)
        (children_of autosize_center_entry)) = - 1
   \<and> mainSize (layout_locals (panel autosize_center_entry) (elements autosize_center_entry)
        (children_of autosize_center_entry)) = 10
   \<and> width (panel (layout autosize_center_entry))
        - paddingLeft (panel (layout autosize_center_entry))
        - paddingRight (panel (layout autosize_center_entry)) = 2
   \<and> position_x (elements (layout autosize_center_entry) 0) = 4"
  by (simp add: autosize_center_entry_def panel_defs layout_defs)

text \<open>Claim C2 says that a second \<^verbatim>\<open>layout\<close> with the child list and the parameters
  unchanged changes nothing. The pass is idempotent when the size of the panel is fixed
  (\<open>layout_idempotent_fixed_size\<close>) and when \<^verbatim>\<open>justify = start\<close>
  (\<open>layout_idempotent_justify_start\<close>), and it is stable from the second pass on
  (\<open>layout_stable_from_second_pass\<close>). The first pass of an auto-sized panel is not
  repeated by the second, because of the content extent taken on entry: after
  \<^verbatim>\<open>addChild\<close> the child of the example above is at X = 4, and a second
  \<^verbatim>\<open>layout\<close>, with the same child list and the same panel, moves it to X = 0.\<close>

theorem layout_twice_differs:
  "children_of (layout autosize_center_world) = children_of autosize_center_world
   \<and> panel (layout autosize_center_world) = panel autosize_center_world
   \<and> position_x (elements autosize_center_world 0) = 4
   \<and> position_x (elements (layout autosize_center_world) 0) = 0
   \<and> layout autosize_center_world \<noteq> autosize_center_world"
proof -
  have x1: "position_x (elements autosize_center_world 0) = 4"
    by (simp add: autosize_center_world_def addChild_def panel_defs layout_defs)
  have x2: "position_x (elements (layout autosize_center_world) 0) = 0"
    by (simp add: autosize_center_world_def addChild_def panel_defs layout_defs)
  have p: "panel (layout autosize_center_world) = panel autosize_center_world"
    by (simp add: autosize_center_world_def addChild_def panel_defs layout_defs)
  have "layout autosize_center_world \<noteq> autosize_center_world"
    using x1 x2 by auto
  then show ?thesis
    using x1 x2 p by (simp add: layout_children_of)
qed

subsection \<open>Evaluating the binary64 rounding\<close>

lemma binade_unit: "1 \<le> \<bar>x\<bar> \<Longrightarrow> \<bar>x\<bar> < 2 \<Longrightarrow> binade x = 0"
proof -
  assume a: "1 \<le> \<bar>x\<bar>" "\<bar>x\<bar> < 2"
  have "0 \<le> log 2 \<bar>x\<bar>" using a by simp
  moreover have "log 2 \<bar>x\<bar> < 1" using a by (simp add: log_less_iff)
  ultimately show ?thesis by (simp add: binade_def floor_eq_iff)
qed

lemma binade_halve: "2 \<le> \<bar>x\<bar> \<Longrightarrow> binade x = binade (x / 2) + 1"
proof -
  assume a: "2 \<le> \<bar>x\<bar>"
  then have "x \<noteq> 0" by auto
  then have "log 2 \<bar>x / 2\<bar> = log 2 \<bar>x\<bar> - 1"
    by (simp add: log_divide)
  then show ?thesis by (simp add: binade_def)
qed

lemma binade_double: "x \<noteq> 0 \<Longrightarrow> \<bar>x\<bar> < 1 \<Longrightarrow> binade x = binade (x * 2) - 1"
proof -
  assume a: "x \<noteq> 0" "\<bar>x\<bar> < 1"
  have "log 2 \<bar>x * 2\<bar> = log 2 \<bar>x\<bar> + 1"
    using a by (simp add: abs_mult log_mult)
  then show ?thesis by (simp add: binade_def)
qed

lemmas to_double_eval =
  to_double_def round_half_even_def Let_def binade_unit binade_halve binade_double

lemmas layout_fl_defs =
  layout_fl_def layout_locals_fl_def justify_switch_fl_def autoSize_block_fl_def
  UIBox_setSize_def place_child_fl_def advance_fl_def crossPos_fl_def childMainSize_def
  childCrossSize_def paddingTop_def paddingRight_def paddingBottom_def paddingLeft_def

subsection \<open>Exact arithmetic as an instance\<close>

lemma measure_children_fl_exact:
  "measure_children_fl (\<lambda>x. x) d es cs acc = measure_children d es cs acc"
  by (induction cs arbitrary: acc) auto

lemma place_children_fl_exact:
  "place_children_fl (\<lambda>x. x) p sp cs mp es = place_children p sp cs mp es"
  by (induction cs arbitrary: mp es)
    (simp_all add: place_child_fl_def place_child_def advance_fl_def advance_def
      crossPos_fl_def crossPos_def)

lemma autoSize_block_fl_exact: "autoSize_block_fl (\<lambda>x. x) t m p = autoSize_block t m p"
  by (simp add: autoSize_block_fl_def autoSize_block_def)

lemma justify_switch_fl_exact:
  "justify_switch_fl (\<lambda>x. x) j a b c g n = justify_switch j a b c g n"
  by (simp add: justify_switch_fl_def justify_switch_def Let_def split: LayoutJustify.splits)

lemma layout_locals_fl_exact:
  "layout_locals_fl (\<lambda>x. x) p es cs = layout_locals p es cs"
  by (simp add: layout_locals_fl_def layout_locals_def measure_children_fl_exact
      autoSize_block_fl_exact justify_switch_fl_exact Let_def)

lemma layout_fl_exact: "layout_fl (\<lambda>x. x) w = layout w"
  by (simp add: layout_fl_def layout_def layout_locals_fl_exact place_children_fl_exact
      Let_def)

subsection \<open>The measuring loop in rounded arithmetic\<close>

lemma measure_children_fl_step:
  "measure_children_fl rnd d es (c # cs) (t, m) =
     measure_children_fl rnd d es cs
       (rnd (t + childMainSize d (es c)), max m (childCrossSize d (es c)))"
  by (simp add: childMainSize_def childCrossSize_def)

lemma measure_children_fl_fst:
  "fst (measure_children_fl rnd d es cs (t, m))
     = foldl (\<lambda>s x. rnd (s + x)) t (map (\<lambda>c. childMainSize d (es c)) cs)"
proof (induction cs arbitrary: t m)
  case Nil
  show ?case by simp
next
  case (Cons a cs)
  show ?case
    unfolding measure_children_fl_step Cons.IH by simp
qed



lemma locals_fl_totalMainSize:
  "totalMainSize (layout_locals_fl rnd p es cs) =
     rnd (sum_fl rnd (map (\<lambda>c. childMainSize (direction p) (es c)) cs)
          + rnd (gap p * (real (length cs) - 1)))"
  using measure_children_fl_fst [of rnd "direction p" es cs 0 0]
  by (simp add: layout_locals_fl_def sum_fl_def Let_def)





lemma layout_fl_panel:
  assumes "children_of w \<noteq> []"
  shows "panel (layout_fl rnd w)
         = sized (layout_locals_fl rnd (panel w) (elements w) (children_of w))"
  using assms by (simp add: layout_fl_def Let_def)

lemma layout_fl_elements:
  assumes "children_of w \<noteq> []"
  shows "elements (layout_fl rnd w) =
           place_children_fl rnd
             (sized (layout_locals_fl rnd (panel w) (elements w) (children_of w)))
             (spacing (layout_locals_fl rnd (panel w) (elements w) (children_of w)))
             (children_of w)
             (mainPos (layout_locals_fl rnd (panel w) (elements w) (children_of w)))
             (elements w)"
  using assms by (simp add: layout_fl_def Let_def)

subsection \<open>The size of an auto-sized panel\<close>



subsection \<open>The placement loop in rounded arithmetic\<close>

lemma place_children_fl_other:
  "c \<notin> set cs \<Longrightarrow> place_children_fl rnd p sp cs mp es c = es c"
  by (induction cs arbitrary: mp es) auto

lemma mainPos_after_cong:
  "\<forall>c \<in> set cs. es c = es' c \<Longrightarrow>
     mainPos_after rnd p sp mp es cs = mainPos_after rnd p sp mp es' cs"
  by (induction cs arbitrary: mp) simp_all

lemma mainPos_after_snoc:
  "mainPos_after rnd p sp mp es (cs @ [c])
     = advance_fl rnd p sp (mainPos_after rnd p sp mp es cs) (es c)"
  by (induction cs arbitrary: mp) simp_all

lemma place_children_fl_nth:
  assumes "distinct cs" and "i < length cs"
  shows "place_children_fl rnd p sp cs mp es (cs ! i) =
           place_child_fl rnd p (mainPos_after rnd p sp mp es (take i cs)) (es (cs ! i))"
  using assms
proof (induction cs arbitrary: i mp es)
  case Nil
  then show ?case by simp
next
  case (Cons a cs)
  let ?es = "es(a := place_child_fl rnd p mp (es a))"
  let ?mp = "advance_fl rnd p sp mp (es a)"
  show ?case
  proof (cases i)
    case 0
    have "place_children_fl rnd p sp cs ?mp ?es a = ?es a"
      using Cons.prems(1) by (simp add: place_children_fl_other)
    then show ?thesis
      using 0 by simp
  next
    case (Suc j)
    have j: "j < length cs" and d: "distinct cs" and a: "a \<notin> set cs"
      using Cons.prems Suc by simp_all
    have na: "cs ! j \<noteq> a"
      using a j by (metis nth_mem)
    have "\<forall>c \<in> set (take j cs). ?es c = es c"
      using a by (auto dest: in_set_takeD)
    then have mpa: "mainPos_after rnd p sp ?mp ?es (take j cs)
                    = mainPos_after rnd p sp ?mp es (take j cs)"
      by (rule mainPos_after_cong)
    have "place_children_fl rnd p sp cs ?mp ?es (cs ! j) =
            place_child_fl rnd p (mainPos_after rnd p sp ?mp ?es (take j cs)) (?es (cs ! j))"
      by (rule Cons.IH [OF d j])
    then show ?thesis
      using Suc na by (simp add: mpa)
  qed
qed

lemma sized_fl_params:
  "direction (sized (layout_locals_fl rnd p es cs)) = direction p"
  "justify (sized (layout_locals_fl rnd p es cs)) = justify p"
  "gap (sized (layout_locals_fl rnd p es cs)) = gap p"
  by (simp_all add: layout_locals_fl_def autoSize_block_fl_def Let_def split: option.splits)

lemma locals_fl_switch:
  "(mainPos (layout_locals_fl rnd p es cs), spacing (layout_locals_fl rnd p es cs)) =
     justify_switch_fl rnd (justify p) (mainStart (layout_locals_fl rnd p es cs))
       (mainSize (layout_locals_fl rnd p es cs)) (totalMainSize (layout_locals_fl rnd p es cs))
       (gap p) (length cs)"
proof -
  let ?v = "layout_locals_fl rnd p es cs"
  have "justify (sized ?v) = justify p" and "gap (sized ?v) = gap p"
    by (rule sized_fl_params)+
  then show ?thesis
    by (simp add: layout_locals_fl_def Let_def)
qed

lemma locals_fl_mainSize:
  "mainSize (layout_locals_fl rnd p es cs) =
     (if direction p = Horizontal
      then rnd (rnd (width p - paddingLeft p) - paddingRight p)
      else rnd (rnd (height p - paddingTop p) - paddingBottom p))"
proof -
  have "direction (sized (layout_locals_fl rnd p es cs)) = direction p"
    by (rule sized_fl_params)
  then show ?thesis
    by (simp add: layout_locals_fl_def Let_def)
qed

lemma locals_fl_mainStart:
  "mainStart (layout_locals_fl rnd p es cs) =
     (if direction p = Horizontal
      then rnd (rnd (- width (sized (layout_locals_fl rnd p es cs)) / 2) + paddingLeft p)
      else rnd (rnd (height (sized (layout_locals_fl rnd p es cs)) / 2) - paddingTop p))"
proof -
  have "direction (sized (layout_locals_fl rnd p es cs)) = direction p"
    by (rule sized_fl_params)
  then show ?thesis
    by (simp add: layout_locals_fl_def Let_def)
qed

lemma locals_fl_fixed_size:
  "\<not> autoSize p \<Longrightarrow> sized (layout_locals_fl rnd p es cs) = p"
  by (simp add: layout_locals_fl_def Let_def)

lemma place_child_fl_main:
  "direction p = Horizontal \<Longrightarrow>
     position_x (place_child_fl rnd p mp e) = rnd (mp + rnd (width e / 2))"
  "direction p = Vertical \<Longrightarrow>
     position_y (place_child_fl rnd p mp e) = rnd (mp - rnd (height e / 2))"
  by (simp_all add: place_child_fl_def childMainSize_def Let_def)

subsection \<open>Space between the children\<close>

text \<open>Claim C3, as amended. With \<^verbatim>\<open>justify = space-between\<close> and more than one child,
  \<^verbatim>\<open>mainPos\<close> starts at \<^verbatim>\<open>mainStart\<close> and the spacing is
  \<^verbatim>\<open>(mainSize - (totalMainSize - gap * (count - 1))) / (count - 1)\<close> in the program's
  arithmetic, where \<^verbatim>\<open>totalMainSize\<close> is the sum \<open>s\<close> of the children's main sizes
  plus the gap term. When the gap term cancels without rounding error this is
  \<^verbatim>\<open>(mainSize - s) / (count - 1)\<close>, in which the configured gap does not occur. For a
  panel of fixed size \<^verbatim>\<open>mainSize\<close> is the content extent of the panel on the main axis.
  The loop reaches child \<open>i\<close> with \<^verbatim>\<open>mainPos\<close> at \<open>mp i\<close>, where each step adds (in
  a vertical panel: subtracts) the child's main size plus the spacing, and, when no child
  is held twice, centres child \<open>i\<close> half its main size after \<open>mp i\<close>. The statement
  holds for every rounding \<open>rnd\<close>. For three children of main size 1 in a fixed content
  extent of 10 without padding the binary64 spacing is 3.5 and the children are centred at
  -4.5, 0 and 4.5.\<close>

theorem space_between_spacing:
  fixes w :: world and rnd :: "real \<Rightarrow> real"
  defines "cs \<equiv> children_of w" and "p \<equiv> panel w"
  defines "v \<equiv> layout_locals_fl rnd p (elements w) cs"
    and "s \<equiv> sum_fl rnd (map (\<lambda>c. childMainSize (direction p) (elements w c)) cs)"
    and "gaps \<equiv> rnd (gap p * (real (length cs) - 1))"
  defines "mp \<equiv> \<lambda>i. mainPos_after rnd (sized v) (spacing v) (mainStart v) (elements w) (take i cs)"
  assumes "justify p = SpaceBetween" and "1 < length cs"
  shows "spacing v = rnd (rnd (mainSize v - rnd (rnd (s + gaps) - gaps)) / (real (length cs) - 1))
       \<and> (rnd (rnd (s + gaps) - gaps) = s \<longrightarrow>
            spacing v = rnd (rnd (mainSize v - s) / (real (length cs) - 1)))
       \<and> mainPos v = mainStart v
       \<and> (\<not> autoSize p \<longrightarrow>
            panel (layout_fl rnd w) = p
          \<and> mainSize v =
              (if direction p = Horizontal
               then rnd (rnd (width p - paddingLeft p) - paddingRight p)
               else rnd (rnd (height p - paddingTop p) - paddingBottom p)))
       \<and> mp 0 = mainStart v
       \<and> (\<forall>i<length cs.
            mp (Suc i) =
              (if direction p = Horizontal
               then rnd (mp i + rnd (width (elements w (cs ! i)) + spacing v))
               else rnd (mp i - rnd (height (elements w (cs ! i)) + spacing v)))
          \<and> (distinct cs \<longrightarrow>
               (direction p = Horizontal \<longrightarrow>
                  position_x (elements (layout_fl rnd w) (cs ! i))
                    = rnd (mp i + rnd (width (elements w (cs ! i)) / 2)))
             \<and> (direction p = Vertical \<longrightarrow>
                  position_y (elements (layout_fl rnd w) (cs ! i))
                    = rnd (mp i - rnd (height (elements w (cs ! i)) / 2)))))"
proof -
  have ne: "children_of w \<noteq> []"
    using assms(8) by (auto simp: cs_def)
  have tot: "totalMainSize v = rnd (s + gaps)"
    by (simp add: v_def s_def gaps_def locals_fl_totalMainSize)
  have sw: "(mainPos v, spacing v) =
              (mainStart v,
               rnd (rnd (mainSize v - rnd (totalMainSize v - gaps)) / (real (length cs) - 1)))"
    using locals_fl_switch [of rnd p "elements w" cs] assms(7,8)
    by (simp add: v_def gaps_def justify_switch_fl_def)
  have sp: "spacing v
            = rnd (rnd (mainSize v - rnd (rnd (s + gaps) - gaps)) / (real (length cs) - 1))"
    and mpos: "mainPos v = mainStart v"
    using sw tot by simp_all
  have dir: "direction (sized v) = direction p"
    by (simp add: v_def sized_fl_params)
  have fixed: "panel (layout_fl rnd w) = p
          \<and> mainSize v =
              (if direction p = Horizontal
               then rnd (rnd (width p - paddingLeft p) - paddingRight p)
               else rnd (rnd (height p - paddingTop p) - paddingBottom p))"
    if "\<not> autoSize p"
    using that ne
    by (simp add: layout_fl_panel locals_fl_fixed_size locals_fl_mainSize v_def p_def cs_def)
  have es: "elements (layout_fl rnd w)
            = place_children_fl rnd (sized v) (spacing v) cs (mainStart v) (elements w)"
    using layout_fl_elements [OF ne, of rnd] mpos by (simp add: v_def cs_def p_def)
  have loop: "mp (Suc i) =
              (if direction p = Horizontal
               then rnd (mp i + rnd (width (elements w (cs ! i)) + spacing v))
               else rnd (mp i - rnd (height (elements w (cs ! i)) + spacing v)))
          \<and> (distinct cs \<longrightarrow>
               (direction p = Horizontal \<longrightarrow>
                  position_x (elements (layout_fl rnd w) (cs ! i))
                    = rnd (mp i + rnd (width (elements w (cs ! i)) / 2)))
             \<and> (direction p = Vertical \<longrightarrow>
                  position_y (elements (layout_fl rnd w) (cs ! i))
                    = rnd (mp i - rnd (height (elements w (cs ! i)) / 2))))"
    if i: "i < length cs" for i
  proof -
    have "take (Suc i) cs = take i cs @ [cs ! i]"
      using i by (rule take_Suc_conv_app_nth)
    then have step: "mp (Suc i) = advance_fl rnd (sized v) (spacing v) (mp i) (elements w (cs ! i))"
      by (simp add: mp_def mainPos_after_snoc)
    have placed: "elements (layout_fl rnd w) (cs ! i)
                  = place_child_fl rnd (sized v) (mp i) (elements w (cs ! i))"
      if "distinct cs"
      unfolding es mp_def using that i by (rule place_children_fl_nth)
    show ?thesis
      using step placed dir
      by (cases "direction p")
        (simp_all add: mp_def advance_fl_def childMainSize_def place_child_fl_main Let_def)
  qed
  have "mp 0 = mainStart v"
    by (simp add: mp_def)
  then show ?thesis
    using sp mpos fixed loop by simp
qed

theorem space_between_spacing_witness:
  "justify (panel space_between_world) = SpaceBetween
   \<and> children_of space_between_world = [0, 1, 2]
   \<and> \<not> autoSize (panel space_between_world)
   \<and> gap (panel space_between_world) = 0.25
   \<and> padding (panel space_between_world) = (0, 0, 0, 0)
   \<and> mainSize (layout_locals_fl to_double (panel space_between_world)
         (elements space_between_world) (children_of space_between_world)) = 10
   \<and> spacing (layout_locals_fl to_double (panel space_between_world)
         (elements space_between_world) (children_of space_between_world)) = 3.5
   \<and> position_x (elements (layout_fl to_double space_between_world) 0) = - 4.5
   \<and> position_x (elements (layout_fl to_double space_between_world) 1) = 0
   \<and> position_x (elements (layout_fl to_double space_between_world) 2) = 4.5"
  using space_between_spacing [of space_between_world to_double]
  by (simp add: space_between_world_def panel_defs layout_fl_defs Let_def to_double_eval)

text \<open>Claim C3 as first stated has the spacing equal to
  \<^verbatim>\<open>(mainSize - sumOfChildMainSizes) / (count - 1)\<close> whatever the configured gap is. In
  binary64 the gap does not cancel: in a panel of width 2 holding three children of width
  1, the gap 0.7 gives the spacing -0.5000000000000002 and the second child the position
  -2.2e-16, where the formula, and the same panel with the gap 0, give -0.5 and 0.\<close>

theorem space_between_gap_not_ignored:
  "justify (panel (gap_world gap_07)) = SpaceBetween
   \<and> children_of (gap_world gap_07) = [0, 1, 2]
   \<and> to_double (7 / 10) = gap_07
   \<and> gap (panel (gap_world gap_07)) = gap_07
   \<and> mainSize (layout_locals_fl to_double (panel (gap_world gap_07))
         (elements (gap_world gap_07)) (children_of (gap_world gap_07))) = 2
   \<and> sum_fl to_double (map (\<lambda>c. width (elements (gap_world gap_07) c))
         (children_of (gap_world gap_07))) = 3
   \<and> to_double (to_double (2 - 3) / (3 - 1)) = - (1 / 2)
   \<and> spacing (layout_locals_fl to_double (panel (gap_world gap_07))
         (elements (gap_world gap_07)) (children_of (gap_world gap_07)))
       = - (2251799813685249 / 4503599627370496)
   \<and> spacing (layout_locals_fl to_double (panel (gap_world 0))
         (elements (gap_world 0)) (children_of (gap_world 0))) = - (1 / 2)
   \<and> spacing (layout_locals_fl to_double (panel (gap_world gap_07))
         (elements (gap_world gap_07)) (children_of (gap_world gap_07)))
       \<noteq> to_double (to_double (2 - 3) / (3 - 1))
   \<and> position_x (elements (layout_fl to_double (gap_world gap_07)) 1)
       = - (1 / 4503599627370496)
   \<and> position_x (elements (layout_fl to_double (gap_world 0)) 1) = 0"
  by (simp add: gap_world_def gap_07_def panel_defs layout_fl_defs sum_fl_def Let_def
      to_double_eval)

lemma first_child_fl:
  assumes "children_of w = c # cs" and "c \<notin> set cs" and "justify (panel w) = JustifyStart"
  shows "elements (layout_fl rnd w) c =
           place_child_fl rnd (sized (layout_locals_fl rnd (panel w) (elements w) (children_of w)))
             (mainStart (layout_locals_fl rnd (panel w) (elements w) (children_of w)))
             (elements w c)"
proof -
  let ?v = "layout_locals_fl rnd (panel w) (elements w) (children_of w)"
  have "mainPos ?v = mainStart ?v"
    using locals_fl_switch [of rnd "panel w" "elements w" "children_of w"] assms(3)
    by (simp add: justify_switch_fl_def)
  then show ?thesis
    using assms(1,2) layout_fl_elements [of w rnd] by (simp add: place_children_fl_other)
qed

subsection \<open>The start of the main axis\<close>

text \<open>Claim C7, as amended. \<^verbatim>\<open>mainStart\<close> depends on the axis and is computed in the
  program's arithmetic from the size \<^verbatim>\<open>layout\<close> leaves: in a horizontal panel it is
  \<^verbatim>\<open>-width/2 + paddingLeft\<close>, in a vertical panel \<^verbatim>\<open>height/2 - paddingTop\<close>. With
  \<^verbatim>\<open>justify = start\<close> the first child, when it is not held a second time, is centred
  half its main size after \<^verbatim>\<open>mainStart\<close>. For a panel of fixed size the first child of
  a horizontal panel is therefore at \<^verbatim>\<open>(-width/2 + paddingLeft) + childWidth/2\<close>, which
  a left padding of 1 moves right by exactly 1 wherever these additions are exact (a
  panel 6 wide and a child 2 wide: from -2 to -1); the first child of a vertical panel is
  at \<^verbatim>\<open>(height/2 - paddingTop) - childHeight/2\<close>, in which the left padding does not
  occur. The statement holds for every rounding \<open>rnd\<close>.\<close>

theorem mainStart_axis_dependent:
  fixes w :: world and rnd :: "real \<Rightarrow> real"
  defines "v \<equiv> layout_locals_fl rnd (panel w) (elements w) (children_of w)"
  assumes "children_of w = c # cs"
  shows "(direction (panel w) = Horizontal \<longrightarrow>
            mainStart v = rnd (rnd (- width (panel (layout_fl rnd w)) / 2) + paddingLeft (panel w))
          \<and> (justify (panel w) = JustifyStart \<and> c \<notin> set cs \<longrightarrow>
               position_x (elements (layout_fl rnd w) c)
                 = rnd (mainStart v + rnd (width (elements w c) / 2))
             \<and> (\<not> autoSize (panel w) \<longrightarrow>
                  position_x (elements (setPadding_fl rnd (Sides t r b l) w) c)
                    = rnd (rnd (rnd (- width (panel w) / 2) + l)
                           + rnd (width (elements w c) / 2)))))
       \<and> (direction (panel w) = Vertical \<longrightarrow>
            mainStart v = rnd (rnd (height (panel (layout_fl rnd w)) / 2) - paddingTop (panel w))
          \<and> (justify (panel w) = JustifyStart \<and> c \<notin> set cs \<longrightarrow>
               position_y (elements (layout_fl rnd w) c)
                 = rnd (mainStart v - rnd (height (elements w c) / 2))
             \<and> (\<not> autoSize (panel w) \<longrightarrow>
                  position_y (elements (setPadding_fl rnd (Sides t r b l) w) c)
                    = rnd (rnd (rnd (height (panel w) / 2) - t)
                           - rnd (height (elements w c) / 2))
                \<and> position_y (elements (setPadding_fl rnd (Sides t r b l') w) c)
                    = position_y (elements (setPadding_fl rnd (Sides t r b l) w) c))))"
proof -
  have ne: "children_of w \<noteq> []"
    using assms(2) by simp
  have ms: "mainStart v =
              (if direction (panel w) = Horizontal
               then rnd (rnd (- width (panel (layout_fl rnd w)) / 2) + paddingLeft (panel w))
               else rnd (rnd (height (panel (layout_fl rnd w)) / 2) - paddingTop (panel w)))"
    unfolding v_def layout_fl_panel [OF ne] by (rule locals_fl_mainStart)
  have dir: "direction (sized v) = direction (panel w)"
    by (simp add: v_def sized_fl_params)
  have first: "elements (layout_fl rnd w) c = place_child_fl rnd (sized v) (mainStart v) (elements w c)"
    if "justify (panel w) = JustifyStart" and "c \<notin> set cs"
    unfolding v_def using assms(2) that(2,1) by (rule first_child_fl)
  have pad: "elements (setPadding_fl rnd (Sides t r b l) w) c =
               place_child_fl rnd ((panel w)\<lparr>padding := (t, r, b, l)\<rparr>)
                 (if direction (panel w) = Horizontal
                  then rnd (rnd (- width (panel w) / 2) + l)
                  else rnd (rnd (height (panel w) / 2) - t))
                 (elements w c)"
    if "justify (panel w) = JustifyStart" and "c \<notin> set cs" and "\<not> autoSize (panel w)"
    for l
  proof -
    let ?w = "w\<lparr>panel := (panel w)\<lparr>padding := (t, r, b, l)\<rparr>\<rparr>"
    let ?v = "layout_locals_fl rnd (panel ?w) (elements ?w) (children_of ?w)"
    have co: "children_of ?w = c # cs"
      using assms(2) by (simp add: children_of_def)
    have sz: "sized ?v = panel ?w"
      using that(3) by (simp add: locals_fl_fixed_size)
    have e1: "elements (layout_fl rnd ?w) c
              = place_child_fl rnd (sized ?v) (mainStart ?v) (elements ?w c)"
      using co that(2,1) by (intro first_child_fl) simp_all
    have e2: "mainStart ?v =
                (if direction (panel w) = Horizontal
                 then rnd (rnd (- width (panel w) / 2) + l)
                 else rnd (rnd (height (panel w) / 2) - t))"
      unfolding locals_fl_mainStart [of rnd "panel ?w"] sz
      by (simp add: paddingLeft_def paddingTop_def)
    have e0: "setPadding_fl rnd (Sides t r b l) w = layout_fl rnd ?w"
      by (simp add: setPadding_fl_def)
    show ?thesis
      unfolding e0 e1 e2 sz by simp
  qed
  show ?thesis
  proof (cases "direction (panel w)")
    case Horizontal
    then show ?thesis
      using ms first pad dir by (simp add: place_child_fl_main)
  next
    case Vertical
    then show ?thesis
      using ms first pad dir by (simp add: place_child_fl_main)
  qed
qed

theorem mainStart_axis_dependent_witness:
  "children_of padded_row_world = [0, 1] \<and> direction (panel padded_row_world) = Horizontal
   \<and> justify (panel padded_row_world) = JustifyStart \<and> \<not> autoSize (panel padded_row_world)
   \<and> width (panel padded_row_world) = 6 \<and> width (elements padded_row_world 0) = 2
   \<and> position_x (elements (setPadding_fl to_double (Sides 0 0 0 0) padded_row_world) 0) = - 2
   \<and> position_x (elements (setPadding_fl to_double (Sides 0 0 0 1) padded_row_world) 0) = - 1
   \<and> children_of padded_column_world = [0, 1] \<and> direction (panel padded_column_world) = Vertical
   \<and> justify (panel padded_column_world) = JustifyStart \<and> \<not> autoSize (panel padded_column_world)
   \<and> height (panel padded_column_world) = 4 \<and> height (elements padded_column_world 0) = 2
   \<and> position_y (elements (setPadding_fl to_double (Sides 0 0 0 0) padded_column_world) 0) = 1
   \<and> position_y (elements (setPadding_fl to_double (Sides 0 0 0 1) padded_column_world) 0) = 1
   \<and> position_y (elements (setPadding_fl to_double (Sides 1 0 0 0) padded_column_world) 0) = 0"
  using mainStart_axis_dependent [of padded_row_world 0 "[1]" to_double 0 0 0 1]
    mainStart_axis_dependent [of padded_column_world 0 "[1]" to_double 1 0 0 0]
  by (simp add: padded_row_world_def padded_column_world_def panel_defs setPadding_fl_def
      layout_fl_defs Let_def to_double_eval)

text \<open>Claim C7 as first stated has a left padding of 1 move the main start of a
  horizontal panel right by exactly 1. With \<^verbatim>\<open>autoSize\<close> the width grows with the
  padding: for one child of size (1, 1) the panel is 1 wide without padding and 2 wide
  with a left padding of 1, \<^verbatim>\<open>mainStart\<close> goes from -0.5 to 0 and the child from 0 to
  0.5.\<close>

theorem padding_shift_autoSize:
  "children_of autosize_row_world = [0]
   \<and> direction (panel autosize_row_world) = Horizontal
   \<and> justify (panel autosize_row_world) = JustifyStart
   \<and> autoSize (panel autosize_row_world)
   \<and> width (elements autosize_row_world 0) = 1
   \<and> width (panel (setPadding_fl to_double (Sides 0 0 0 0) autosize_row_world)) = 1
   \<and> width (panel (setPadding_fl to_double (Sides 0 0 0 1) autosize_row_world)) = 2
   \<and> mainStart (layout_locals_fl to_double
         ((panel autosize_row_world)\<lparr>padding := (0, 0, 0, 0)\<rparr>)
         (elements autosize_row_world) (children_of autosize_row_world)) = - (1 / 2)
   \<and> mainStart (layout_locals_fl to_double
         ((panel autosize_row_world)\<lparr>padding := (0, 0, 0, 1)\<rparr>)
         (elements autosize_row_world) (children_of autosize_row_world)) = 0
   \<and> position_x (elements (setPadding_fl to_double (Sides 0 0 0 0) autosize_row_world) 0) = 0
   \<and> position_x (elements (setPadding_fl to_double (Sides 0 0 0 1) autosize_row_world) 0) = 1 / 2
   \<and> position_x (elements (setPadding_fl to_double (Sides 0 0 0 1) autosize_row_world) 0)
       \<noteq> position_x (elements (setPadding_fl to_double (Sides 0 0 0 0) autosize_row_world) 0) + 1"
  by (simp add: autosize_row_world_def panel_defs setPadding_fl_def layout_fl_defs Let_def
      to_double_eval)

end
